theory Spec2Isabelle
  imports Complex_Main "HOL-Library.Word"
begin

unbundle bit_operations_syntax

section \<open>The DS2438 one-wire driver (ds2438.c)\<close>

text \<open>
  A shallow embedding of \<^verbatim>\<open>ds2438.c\<close>. Bytes (\<^verbatim>\<open>uint8_t\<close>) are \<open>8 word\<close>, the
  16-bit quantities are \<open>16 word\<close>, the status word of \<^verbatim>\<open>ds2438_read_slave\<close> is
  \<open>32 word\<close>. Arrays are lists. The pin and everything attached to it is an explicit
  state of type \<open>'b\<close> that every routine takes and returns.
\<close>

type_synonym u8 = "8 word"
type_synonym u16 = "16 word"
type_synonym u32 = "32 word"

subsection \<open>Constants\<close>

definition kConvertTCommand :: u8 where "kConvertTCommand = 0x44"
definition kConvertVCommand :: u8 where "kConvertVCommand = 0xB4"
definition kRecallPage :: u8 where "kRecallPage = 0xB8"
definition kReadScatchPad :: u8 where "kReadScatchPad = 0xBE"

definition kScratchPad_TLSB :: nat where "kScratchPad_TLSB = 1"
definition kScratchPad_TMSB :: nat where "kScratchPad_TMSB = 2"
definition kScratchPad_VLSB :: nat where "kScratchPad_VLSB = 3"
definition kScratchPad_VMSB :: nat where "kScratchPad_VMSB = 4"
definition kScratchPad_CRC :: nat where "kScratchPad_CRC = 8"

definition kDS2438_DeviceNotFound :: u32 where "kDS2438_DeviceNotFound = 0xA800"
definition kDS2438_CrcCheckFailed :: u32 where "kDS2438_CrcCheckFailed = 0x5000"

subsection \<open>CRC-8\<close>

text \<open>
  Modelled from the spec: \<^verbatim>\<open>_crc_ibutton_update\<close> comes from avr-libc's
  \<^verbatim>\<open>util/crc16.h\<close>, which is not part of the source. The spec calls it the table-free
  bitwise update over the Dallas/Maxim (iButton) polynomial, seeded at 0 by the caller:
  the incoming byte is xor-ed into the register, which is then shifted right eight
  times, xor-ing in the reflected polynomial \<open>0x8C\<close> whenever a one is shifted out.
\<close>

definition crc_shift :: "u8 \<Rightarrow> u8" where
  "crc_shift crc = (if crc AND 0x01 \<noteq> 0 then drop_bit 1 crc XOR 0x8C else drop_bit 1 crc)"

definition crc_ibutton_update :: "u8 \<Rightarrow> u8 \<Rightarrow> u8" where
  "crc_ibutton_update crc data = (crc_shift ^^ 8) (crc XOR data)"

text \<open>
  \<^verbatim>\<open>crc8(data, len)\<close>: the loop \<^verbatim>\<open>for (i = 0; i < len; ++i)\<close> with both counters
  of type \<^verbatim>\<open>uint8_t\<close>; \<open>i\<close> never passes \<open>len\<close>, so it does not wrap. A read
  past the end of the array is undefined in C; the model returns \<open>None\<close> there.
\<close>

function crc8_loop :: "u8 list \<Rightarrow> u8 \<Rightarrow> u8 \<Rightarrow> u8 \<Rightarrow> u8 option" where
  "crc8_loop data len i crc =
     (if i < len then
        (if unat i < length data
         then crc8_loop data len (i + 1) (crc_ibutton_update crc (data ! unat i))
         else None)
      else Some crc)"
  by pat_completeness auto
termination
proof (relation "measure (\<lambda>(data, len, i, crc). unat len - unat i)")
  fix data :: "u8 list" and len i crc :: u8
  assume "i < len"
  then have "unat i < unat len"
    by (simp add: word_less_nat_alt)
  moreover from this have "unat (i + 1) = Suc (unat i)"
    using unsigned_less [of len, where ?'a = nat] by (simp add: unat_word_ariths)
  ultimately show "((data, len, i + 1, crc_ibutton_update crc (data ! unat i)), (data, len, i, crc))
      \<in> measure (\<lambda>(data, len, i, crc). unat len - unat i)"
    by simp
qed simp

definition crc8 :: "u8 list \<Rightarrow> u8 \<Rightarrow> u8 option" where
  "crc8 data len = crc8_loop data len 0 0"

text \<open>
  The check both callers make on a received block (\<^verbatim>\<open>address[7] == crc8(address, 7)\<close>
  for a ROM code, \<^verbatim>\<open>crc8(buffer, 8) != buffer[8]\<close> for a scratchpad): the byte at
  index \<open>len\<close> is the CRC-8 of the \<open>len\<close> bytes before it.
\<close>

definition crc_checks :: "u8 list \<Rightarrow> u8 \<Rightarrow> bool" where
  "crc_checks data len = (unat len < length data \<and> crc8 data len = Some (data ! unat len))"

subsection \<open>The pin and the delays\<close>

text \<open>
  The header \<^verbatim>\<open>ds2438.h\<close> with the pin type \<^verbatim>\<open>gpin_t\<close> and its five routines, and
  avr-libc's busy-wait delays, are not part of the source. They are taken as a
  parameter: a record of operations on the state \<open>'b\<close> of the pin and of whatever is
  wired to it. Reading the level returns a byte, zero for a low line, and may change
  the state.
\<close>

record 'b gpin =
  gpio_output_set_high :: "'b \<Rightarrow> 'b"
  gpio_output_set_low :: "'b \<Rightarrow> 'b"
  gpio_configure_output :: "'b \<Rightarrow> 'b"
  gpio_configure_input_hiz :: "'b \<Rightarrow> 'b"
  gpio_input_read :: "'b \<Rightarrow> u8 \<times> 'b"
  delay_us :: "nat \<Rightarrow> 'b \<Rightarrow> 'b"
  delay_ms :: "nat \<Rightarrow> 'b \<Rightarrow> 'b"

subsection \<open>Reset, bit slots and bytes\<close>

definition onewire_reset :: "'b gpin \<Rightarrow> 'b \<Rightarrow> bool \<times> 'b" where
  "onewire_reset io b =
     (let b = gpio_output_set_high io b;
          b = gpio_configure_output io b;
          b = gpio_output_set_low io b;
          b = delay_us io 480 b;
          b = gpio_configure_input_hiz io b;
          b = delay_us io 70 b;
          (result, b) = gpio_input_read io b;
          b = delay_us io 460 b
      in (result = 0, b))"

definition onewire_write_bit :: "'b gpin \<Rightarrow> u8 \<Rightarrow> 'b \<Rightarrow> 'b" where
  "onewire_write_bit io bitv b =
     (if bitv \<noteq> 0 then
        (let b = gpio_output_set_low io b;
             b = delay_us io 5 b;
             b = gpio_output_set_high io b
         in delay_us io 55 b)
      else
        (let b = gpio_output_set_low io b;
             b = delay_us io 55 b;
             b = gpio_output_set_high io b
         in delay_us io 5 b))"

text \<open>
  \<^verbatim>\<open>for (uint8_t i = 8; i != 0; --i)\<close>: the counter runs from 8 down to 0 and is a
  natural number here.
\<close>

fun onewire_write_loop :: "'b gpin \<Rightarrow> nat \<Rightarrow> u8 \<Rightarrow> 'b \<Rightarrow> 'b" where
  "onewire_write_loop io 0 byte b = b"
| "onewire_write_loop io (Suc i) byte b =
     onewire_write_loop io i (drop_bit 1 byte) (onewire_write_bit io (byte AND 0x1) b)"

definition onewire_write :: "'b gpin \<Rightarrow> u8 \<Rightarrow> 'b \<Rightarrow> 'b" where
  "onewire_write io byte b =
     (let b = gpio_output_set_low io b;
          b = gpio_configure_output io b
      in onewire_write_loop io 8 byte b)"

definition onewire_read_bit :: "'b gpin \<Rightarrow> 'b \<Rightarrow> u8 \<times> 'b" where
  "onewire_read_bit io b =
     (let b = gpio_output_set_low io b;
          b = gpio_configure_output io b;
          b = delay_us io 1 b;
          b = gpio_configure_input_hiz io b;
          b = delay_us io 10 b;
          (level, b) = gpio_input_read io b;
          result = (if level \<noteq> 0 then 1 else 0);
          b = delay_us io 50 b
      in (result, b))"

text \<open>
  \<^verbatim>\<open>for (uint8_t bit = 0x01; bit; bit <<= 1)\<close>: the mask \<open>bit\<close> (here \<open>bitm\<close>) is shifted
  left until it leaves the byte.
\<close>

lemma word_reverse_push_bit_1:
  "word_reverse (push_bit 1 x) = drop_bit 1 (word_reverse x)" for x :: u8
proof (rule bit_word_eqI)
  fix n assume "n < LENGTH(8)"
  then have n: "n < 8" by simp
  have "bit (push_bit 1 x) (7 - n) = (n < 7 \<and> bit x (6 - n))"
    using n by (cases "n = 7") (auto simp add: bit_push_bit_iff simp del: push_bit_of_Suc_0 push_bit_Suc)
  with n show "bit (word_reverse (push_bit 1 x)) n = bit (drop_bit 1 (word_reverse x)) n"
    by (auto simp: bit_word_reverse_iff bit_drop_bit_eq Suc_diff_Suc simp del: push_bit_of_Suc_0 push_bit_Suc)
qed

lemma word_reverse_zero: "word_reverse x = 0 \<Longrightarrow> x = 0" for x :: u8
proof -
  assume "word_reverse x = 0"
  then have "word_reverse (word_reverse x) = word_reverse 0" by simp
  moreover have "word_reverse (0 :: u8) = 0"
    by (rule bit_word_eqI) (simp add: bit_word_reverse_iff)
  ultimately show ?thesis by simp
qed

lemma shift_measure: "bitm \<noteq> 0 \<Longrightarrow> unat (word_reverse (push_bit 1 bitm)) < unat (word_reverse bitm)" for bitm :: u8
proof -
  assume "bitm \<noteq> 0"
  then have "word_reverse bitm \<noteq> 0"
    using word_reverse_zero by blast
  then have "unat (word_reverse bitm) \<noteq> 0"
    by (simp add: unat_eq_0)
  then have "unat (drop_bit 1 (word_reverse bitm)) < unat (word_reverse bitm)"
    by (simp add: unat_drop_bit_eq drop_bit_eq_div unat_div)
  then show ?thesis
    by (simp only: word_reverse_push_bit_1)
qed

function onewire_read_loop :: "'b gpin \<Rightarrow> u8 \<Rightarrow> u8 \<Rightarrow> 'b \<Rightarrow> u8 \<times> 'b" where
  "onewire_read_loop io bitm buffer b =
     (if bitm \<noteq> 0 then
        (let (r, b) = onewire_read_bit io b;
             buffer = (if r \<noteq> 0 then buffer OR bitm else buffer)
         in onewire_read_loop io (push_bit 1 bitm) buffer b)
      else (buffer, b))"
  by pat_completeness auto
termination
  by (relation "measure (\<lambda>(io, bitm, buffer, b). unat (word_reverse bitm))")
     (use shift_measure in simp_all)

definition onewire_read :: "'b gpin \<Rightarrow> 'b \<Rightarrow> u8 \<times> 'b" where
  "onewire_read io b = onewire_read_loop io 0x01 0x0 (gpio_configure_input_hiz io b)"

subsection \<open>The ROM search\<close>

text \<open>
  \<^verbatim>\<open>struct onewire_search_state\<close>. The field \<^verbatim>\<open>done\<close> is \<open>search_done\<close> here.
  \<^verbatim>\<open>lastZeroBranch\<close> is an \<^verbatim>\<open>int8_t\<close> that only ever holds \<open>-1\<close> or a bit
  position below 64, so it is an \<open>int\<close>; \<^verbatim>\<open>address\<close> is the list of the eight bytes.
\<close>

record onewire_search_state =
  lastZeroBranch :: int
  search_done :: bool
  address :: "u8 list"

definition kConflict :: u8 where "kConflict = 0"
definition kZero :: u8 where "kZero = 2"
definition kOne :: u8 where "kOne = 1"

text \<open>
  The variables of \<^verbatim>\<open>_search_next\<close> that live across the iterations of its loop:
  the two locals declared before the loop, the caller's search state and the bus.
\<close>

record 'b search_vars =
  bitValue :: u8
  localLastZeroBranch :: int
  state :: onewire_search_state
  bus :: 'b

text \<open>The bit and its complement, read into \<^verbatim>\<open>reading\<close>.\<close>

definition search_reading :: "'b gpin \<Rightarrow> 'b \<Rightarrow> u8 \<times> 'b" where
  "search_reading io b =
     (let b = gpio_configure_input_hiz io b;
          reading = 0;
          (r, b) = onewire_read_bit io b;
          reading = reading OR r;
          (r, b) = onewire_read_bit io b;
          reading = reading OR push_bit 1 r
      in (reading, b))"

text \<open>The \<^verbatim>\<open>kConflict\<close> case: the value chosen for an ambiguous bit.\<close>

definition search_conflict :: "nat \<Rightarrow> 'b search_vars \<Rightarrow> 'b search_vars" where
  "search_conflict bitPosition v =
     (let byteIndex = bitPosition div 8;
          bitIndex = bitPosition mod 8;
          v = (if int bitPosition = lastZeroBranch (state v) then v\<lparr>bitValue := 1\<rparr>
               else if int bitPosition < lastZeroBranch (state v)
               then v\<lparr>bitValue := address (state v) ! byteIndex AND push_bit bitIndex 1\<rparr>
               else v\<lparr>bitValue := 0\<rparr>)
      in if bitValue v = 0 then v\<lparr>localLastZeroBranch := int bitPosition\<rparr> else v)"

text \<open>
  The tail of the loop body: the bit goes into the address, then onto the bus. The
  C operands are promoted to \<^verbatim>\<open>int\<close> and the result is cut back to the byte;
  on bytes, \<open>push_bit\<close> drops what is shifted out in the same way.
\<close>

definition search_write :: "'b gpin \<Rightarrow> nat \<Rightarrow> 'b search_vars \<Rightarrow> 'b search_vars" where
  "search_write io bitPosition v =
     (let byteIndex = bitPosition div 8;
          bitIndex = bitPosition mod 8;
          a = address (state v);
          a = (if bitValue v = 0
               then a[byteIndex := a ! byteIndex AND NOT (push_bit bitIndex 1)]
               else a[byteIndex := a ! byteIndex OR push_bit bitIndex (bitValue v)]);
          b = gpio_output_set_high io (bus v);
          b = gpio_configure_output io b;
          b = onewire_write_bit io (bitValue v) b
      in v\<lparr>state := (state v)\<lparr>address := a\<rparr>, bus := b\<rparr>)"

text \<open>
  One iteration of the loop over the bit positions. The flag is \<open>False\<close> when the
  iteration leaves the function through \<^verbatim>\<open>return false\<close>.
\<close>

definition search_bit :: "'b gpin \<Rightarrow> nat \<Rightarrow> 'b search_vars \<Rightarrow> bool \<times> 'b search_vars" where
  "search_bit io bitPosition v =
     (let (reading, b) = search_reading io (bus v);
          v = v\<lparr>bus := b\<rparr>
      in if reading = kZero \<or> reading = kOne
         then (True, search_write io bitPosition (v\<lparr>bitValue := reading AND 0x1\<rparr>))
         else if reading = kConflict
         then (True, search_write io bitPosition (search_conflict bitPosition v))
         else (False, v))"

function search_loop :: "'b gpin \<Rightarrow> nat \<Rightarrow> 'b search_vars \<Rightarrow> bool \<times> 'b search_vars" where
  "search_loop io bitPosition v =
     (if bitPosition < 64 then
        (let (ok, v) = search_bit io bitPosition v
         in if ok then search_loop io (bitPosition + 1) v else (False, v))
      else (True, v))"
  by pat_completeness auto
termination
  by (relation "measure (\<lambda>(io, bitPosition, v). 64 - bitPosition)") auto

declare search_loop.simps [simp del]

definition search_next :: "'b gpin \<Rightarrow> onewire_search_state \<Rightarrow> 'b \<Rightarrow>
    bool \<times> onewire_search_state \<times> 'b" where
  "search_next io st b =
     (let (ok, v) = search_loop io 0
            \<lparr>bitValue = 0, localLastZeroBranch = - 1, state = st, bus = b\<rparr>
      in if \<not> ok then (False, state v, bus v)
         else if localLastZeroBranch v = - 1
         then (True, (state v)\<lparr>search_done := True\<rparr>, bus v)
         else (True, (state v)\<lparr>lastZeroBranch := localLastZeroBranch v\<rparr>, bus v))"

definition search_devices :: "u8 \<Rightarrow> 'b gpin \<Rightarrow> onewire_search_state \<Rightarrow> 'b \<Rightarrow>
    bool \<times> onewire_search_state \<times> 'b" where
  "search_devices command io st b =
     (if search_done st then (False, st, b)
      else
        (let (present, b) = onewire_reset io b
         in if \<not> present then (False, st, b)
            else search_next io st (onewire_write io command b)))"

definition onewire_search :: "'b gpin \<Rightarrow> onewire_search_state \<Rightarrow> 'b \<Rightarrow>
    bool \<times> onewire_search_state \<times> 'b" where
  "onewire_search io st b = search_devices 0xF0 io st b"

definition onewire_check_rom_crc :: "onewire_search_state \<Rightarrow> bool" where
  "onewire_check_rom_crc st = (Some (address st ! 7) = crc8 (address st) 7)"

subsection \<open>Enumeration\<close>

text \<open>
  \<^verbatim>\<open>memcpy(&buf[off], src, n)\<close> on lists. A write outside the list leaves it as it
  is; the theorems below ask for a buffer that holds the capacity the caller states.
\<close>

definition memcpy :: "u8 list \<Rightarrow> nat \<Rightarrow> u8 list \<Rightarrow> nat \<Rightarrow> u8 list" where
  "memcpy buf off src n = fold (\<lambda>k dst. dst[off + k := src ! k]) [0..<n] buf"




text \<open>
  The loop of \<^verbatim>\<open>ds2438_search\<close>. Nothing in the code bounds the number of rounds, so
  the loop is a partial function: \<open>None\<close> stands for a loop that never ends. The
  counter \<open>i\<close> is a \<^verbatim>\<open>uint8_t\<close> and wraps; \<^verbatim>\<open>8 * (i + 1)\<close> is computed in
  \<^verbatim>\<open>int\<close> and stays below 2049.
\<close>

partial_function (option) ds2438_search_loop ::
  "'b gpin \<Rightarrow> u16 \<Rightarrow> u8 \<Rightarrow> u8 list \<Rightarrow> onewire_search_state \<Rightarrow> 'b \<Rightarrow>
     (u8 \<times> u8 list \<times> onewire_search_state \<times> 'b) option" where
  "ds2438_search_loop io len i buf st b =
     (case onewire_search io st b of (ok, st, b) \<Rightarrow>
        if ok \<and> 8 * (unat i + 1) \<le> unat len
        then (if onewire_check_rom_crc st
              then ds2438_search_loop io len (i + 1) (memcpy buf (8 * unat i) (address st) 8) st b
              else ds2438_search_loop io len i buf st b)
        else Some (i, buf, st, b))"

declare ds2438_search_loop.simps [code]

text \<open>The state \<^verbatim>\<open>ds2438_search\<close> starts from: \<open>-1\<close>, not done, eight zero bytes.\<close>

definition search_init :: onewire_search_state where
  "search_init = \<lparr>lastZeroBranch = - 1, search_done = False, address = [0, 0, 0, 0, 0, 0, 0, 0]\<rparr>"

text \<open>The result is \<^verbatim>\<open>*found\<close>, the buffer and the bus.\<close>

definition ds2438_search :: "'b gpin \<Rightarrow> 'b \<Rightarrow> u8 list \<Rightarrow> u16 \<Rightarrow> (u8 \<times> u8 list \<times> 'b) option" where
  "ds2438_search io b buf len =
     (case ds2438_search_loop io len 0 buf search_init b of
        None \<Rightarrow> None
      | Some (i, buf, st, b) \<Rightarrow> Some (i, buf, b))"

subsection \<open>Reading a scratchpad page\<close>

function read_slave_loop :: "'b gpin \<Rightarrow> nat \<Rightarrow> u8 list \<Rightarrow> 'b \<Rightarrow> u8 list \<times> 'b" where
  "read_slave_loop io i buffer b =
     (if i < 9 then
        (let (byte, b) = onewire_read io b
         in read_slave_loop io (i + 1) (buffer[i := byte]) b)
      else (buffer, b))"
  by pat_completeness auto
termination
  by (relation "measure (\<lambda>(io, i, buffer, b). 9 - i)") auto

declare read_slave_loop.simps [simp del]

text \<open>\<open>n\<close> bytes read one after the other, as the loop above reads nine.\<close>

fun onewire_read_bytes :: "'b gpin \<Rightarrow> nat \<Rightarrow> 'b \<Rightarrow> u8 list \<times> 'b" where
  "onewire_read_bytes io 0 b = ([], b)"
| "onewire_read_bytes io (Suc n) b =
     (let (x, b) = onewire_read io b;
          (xs, b) = onewire_read_bytes io n b
      in (x # xs, b))"

definition ds2438_read_slave :: "'b gpin \<Rightarrow> u8 \<Rightarrow> u8 list \<Rightarrow> 'b \<Rightarrow> u32 \<times> u8 list \<times> 'b" where
  "ds2438_read_slave io page buffer b =
     (let (present, b) = onewire_reset io b
      in if \<not> present then (kDS2438_DeviceNotFound, buffer, b)
         else
           (let b = onewire_write io 0xCC b;
                b = onewire_write io kRecallPage b;
                b = onewire_write io page b;
                (present, b) = onewire_reset io b
            in if \<not> present then (kDS2438_DeviceNotFound, buffer, b)
               else
                 (let b = onewire_write io 0xCC b;
                      b = onewire_write io kReadScatchPad b;
                      b = onewire_write io page b;
                      (buffer, b) = read_slave_loop io 0 buffer b
                  in if crc8 buffer 8 \<noteq> Some (buffer ! kScratchPad_CRC)
                     then (kDS2438_CrcCheckFailed, buffer, b)
                     else (0, buffer, b))))"

subsection \<open>Measurement\<close>

text \<open>
  The values \<^verbatim>\<open>ds2438_measure\<close> takes from a scratchpad. \<^verbatim>\<open>vad\<close> and \<^verbatim>\<open>vdd\<close> are
  \<^verbatim>\<open>uint16_t\<close>: the product with 10 is cut to 16 bits.
\<close>

definition scratch_voltage :: "u8 list \<Rightarrow> u16" where
  "scratch_voltage buffer =
     (push_bit 8 (ucast (buffer ! kScratchPad_VMSB)) OR ucast (buffer ! kScratchPad_VLSB)) * 10"

definition temp_integer :: "u8 list \<Rightarrow> u8" where
  "temp_integer buffer = buffer ! kScratchPad_TMSB"

definition temp_frac :: "u8 list \<Rightarrow> u16" where
  "temp_frac buffer = ucast (drop_bit 3 (buffer ! kScratchPad_TLSB)) * 32"

text \<open>
  The arithmetic on \<^verbatim>\<open>float\<close> and the conversion \<^verbatim>\<open>%0.3f\<close> of \<^verbatim>\<open>sprintf\<close>
  belong to the compiler and the C library, not to this file. Like the pin they are a
  parameter: a type \<open>'f\<close> of floating-point values with the conversion from an
  integer, the value of a decimal literal, the four operations and the printed form.
  What they round to, and what a division by zero gives, is theirs.
\<close>

record 'f flt =
  flt_of_int :: "int \<Rightarrow> 'f"
  flt_lit :: "real \<Rightarrow> 'f"
  flt_add :: "'f \<Rightarrow> 'f \<Rightarrow> 'f"
  flt_sub :: "'f \<Rightarrow> 'f \<Rightarrow> 'f"
  flt_mul :: "'f \<Rightarrow> 'f \<Rightarrow> 'f"
  flt_div :: "'f \<Rightarrow> 'f \<Rightarrow> 'f"
  flt_fmt :: "'f \<Rightarrow> string"

text \<open>
  \<^verbatim>\<open>temp_integer + temp_frac / 1000.0f\<close>: both integers are unsigned
  (\<^verbatim>\<open>uint8_t\<close>, \<^verbatim>\<open>uint16_t\<close>) and are converted to \<^verbatim>\<open>float\<close> with their
  values.
\<close>

definition temperature :: "'f flt \<Rightarrow> u8 list \<Rightarrow> 'f" where
  "temperature fl buffer =
     flt_add fl (flt_of_int fl (uint (temp_integer buffer)))
       (flt_div fl (flt_of_int fl (uint (temp_frac buffer))) (flt_lit fl 1000))"

text \<open>
  \<^verbatim>\<open>(vad * 1.0f / vdd - 0.16f) / (0.0062f * (1.0546f - 0.00216f * temperature))\<close>
\<close>

definition sensor_rh :: "'f flt \<Rightarrow> u16 \<Rightarrow> u16 \<Rightarrow> 'f \<Rightarrow> 'f" where
  "sensor_rh fl vad vdd t =
     flt_div fl
       (flt_sub fl
          (flt_div fl (flt_mul fl (flt_of_int fl (uint vad)) (flt_lit fl 1.0))
             (flt_of_int fl (uint vdd)))
          (flt_lit fl 0.16))
       (flt_mul fl (flt_lit fl 0.0062)
          (flt_sub fl (flt_lit fl 1.0546) (flt_mul fl (flt_lit fl 0.00216) t)))"

text \<open>
  The characters of \<^verbatim>\<open>sprintf(output, "TH;%0.3f;%0.3f\r\n", temperature, sensor_rh)\<close>,
  without the terminating zero.
\<close>

definition sprintf_TH :: "'f flt \<Rightarrow> 'f \<Rightarrow> 'f \<Rightarrow> string" where
  "sprintf_TH fl t rh = ''TH;'' @ flt_fmt fl t @ '';'' @ flt_fmt fl rh @ [CHR 0x0D, CHR 0x0A]"

text \<open>
  The first half of \<^verbatim>\<open>ds2438_measure\<close>, up to the first scratchpad read: \<open>None\<close>
  where the function has returned \<^verbatim>\<open>false\<close>, else the scratchpad. The bus comes
  back in both cases.
\<close>

definition measure_vad :: "'b gpin \<Rightarrow> 'b \<Rightarrow> u8 list option \<times> 'b" where
  "measure_vad io b =
     (let (present, b) = onewire_reset io b
      in if \<not> present then (None, b)
         else
           (let b = onewire_write io 0xCC b;
                b = onewire_write io 0x4E b;
                b = onewire_write io 0x00 b;
                b = onewire_write io 0x00 b;
                b = delay_ms io 20 b;
                (present, b) = onewire_reset io b
            in if \<not> present then (None, b)
               else
                 (let b = onewire_write io 0xCC b;
                      b = onewire_write io kConvertTCommand b;
                      b = delay_ms io 20 b;
                      (present, b) = onewire_reset io b
                  in if \<not> present then (None, b)
                     else
                       (let b = onewire_write io 0xCC b;
                            b = onewire_write io kConvertVCommand b;
                            b = delay_ms io 20 b;
                            (reading, buffer, b) = ds2438_read_slave io 0 (replicate 9 0) b
                        in if reading = kDS2438_CrcCheckFailed then (None, b)
                           else if reading = kDS2438_DeviceNotFound then (None, b)
                           else (Some buffer, b)))))"

text \<open>The second half, from the switch to VDD to the second scratchpad read.\<close>

definition measure_vdd :: "'b gpin \<Rightarrow> u8 list \<Rightarrow> 'b \<Rightarrow> u8 list option \<times> 'b" where
  "measure_vdd io buffer b =
     (let b = delay_ms io 20 b;
          (present, b) = onewire_reset io b
      in if \<not> present then (None, b)
         else
           (let b = onewire_write io 0xCC b;
                b = onewire_write io 0x4E b;
                b = onewire_write io 0x00 b;
                b = onewire_write io 0x08 b;
                (present, b) = onewire_reset io b
            in if \<not> present then (None, b)
               else
                 (let b = onewire_write io 0xCC b;
                      b = onewire_write io kConvertVCommand b;
                      b = delay_ms io 20 b;
                      (present, b) = onewire_reset io b
                  in if \<not> present then (None, b)
                     else
                       (let (reading, buffer, b) = ds2438_read_slave io 0 buffer b
                        in if reading = kDS2438_CrcCheckFailed then (None, b)
                           else if reading = kDS2438_DeviceNotFound then (None, b)
                           else (Some buffer, b)))))"

text \<open>
  \<^verbatim>\<open>ds2438_measure\<close>: the result, the string in the caller's \<^verbatim>\<open>output\<close> and the
  bus. The local \<^verbatim>\<open>buffer\<close> starts out as nine zero bytes; the code never reads it
  before \<^verbatim>\<open>ds2438_read_slave\<close> has filled it. \<^verbatim>\<open>output\<close> is a \<^verbatim>\<open>char[20]\<close>:
  a line of 20 characters or more makes \<^verbatim>\<open>sprintf\<close> write past its end, and the
  function then has no defined result, which is \<open>None\<close>.
\<close>

definition ds2438_measure ::
  "'b gpin \<Rightarrow> 'f flt \<Rightarrow> 'b \<Rightarrow> string \<Rightarrow> (bool \<times> string \<times> 'b) option" where
  "ds2438_measure io fl b output =
     (case measure_vad io b of
        (None, b) \<Rightarrow> Some (False, output, b)
      | (Some buffer, b) \<Rightarrow>
          (let vad = scratch_voltage buffer
           in case measure_vdd io buffer b of
                (None, b) \<Rightarrow> Some (False, output, b)
              | (Some buffer, b) \<Rightarrow>
                  (let vdd = scratch_voltage buffer;
                       t = temperature fl buffer;
                       rh = sensor_rh fl vad vdd t;
                       line = sprintf_TH fl t rh
                   in if length line < 20 then Some (True, line, b) else None)))"

subsection \<open>Looking into a pass, and calling the search repeatedly\<close>

text \<open>
  The first \<open>n\<close> iterations of the loop of \<^verbatim>\<open>_search_next\<close>, for statements about
  what the loop does at one bit position: iteration \<open>p\<close> starts from
  \<open>search_steps io p v\<close>. The whole loop is \<open>search_steps io 64\<close> (lemma
  \<open>search_loop_steps\<close> below).
\<close>

fun search_steps :: "'b gpin \<Rightarrow> nat \<Rightarrow> 'b search_vars \<Rightarrow> bool \<times> 'b search_vars" where
  "search_steps io 0 v = (True, v)"
| "search_steps io (Suc n) v =
     (case search_steps io n v of
        (ok, v') \<Rightarrow> if ok then search_bit io n v' else (False, v'))"

text \<open>The variables \<^verbatim>\<open>_search_next\<close> enters its loop with.\<close>

definition search_start :: "onewire_search_state \<Rightarrow> 'b \<Rightarrow> 'b search_vars" where
  "search_start st b = \<lparr>bitValue = 0, localLastZeroBranch = - 1, state = st, bus = b\<rparr>"

text \<open>
  Iteration \<open>p\<close> of the pass that starts from \<open>v\<close> reads a conflict and sends a zero.
\<close>

definition zero_branch :: "'b gpin \<Rightarrow> 'b search_vars \<Rightarrow> nat \<Rightarrow> bool" where
  "zero_branch io v p =
     (fst (search_reading io (bus (snd (search_steps io p v)))) = kConflict \<and>
      bitValue (snd (search_steps io (Suc p) v)) = 0)"

text \<open>
  \<open>n\<close> successive calls of \<^verbatim>\<open>onewire_search\<close>, each on the state and the bus the
  call before it left: the results and the states after each call.
\<close>

fun search_calls :: "'b gpin \<Rightarrow> nat \<Rightarrow> onewire_search_state \<Rightarrow> 'b \<Rightarrow>
    (bool \<times> onewire_search_state) list" where
  "search_calls io 0 st b = []"
| "search_calls io (Suc n) st b =
     (case onewire_search io st b of
        (ok, st', b') \<Rightarrow> (ok, st') # search_calls io n st' b')"

text \<open>
  The shapes the value of \<^verbatim>\<open>bitValue\<close> takes after an iteration (zero, one, or
  the mask of the position when the bit was copied from the address), and the write
  of \<^verbatim>\<open>bitValue\<close> into the address as \<open>search_write\<close> does it.
\<close>

definition bit_shape :: "u8 list \<Rightarrow> nat \<Rightarrow> u8 \<Rightarrow> bool" where
  "bit_shape a p bv =
     (bv = 0 \<or> bv = 1 \<or> (bv = push_bit (p mod 8) 1 \<and> bit (a ! (p div 8)) (p mod 8)))"

definition put_bit :: "u8 list \<Rightarrow> nat \<Rightarrow> u8 \<Rightarrow> u8 list" where
  "put_bit a p bv =
     (if bv = 0 then a[p div 8 := a ! (p div 8) AND NOT (push_bit (p mod 8) 1)]
      else a[p div 8 := a ! (p div 8) OR push_bit (p mod 8) bv])"

section \<open>Two buses\<close>

subsection \<open>A scripted bus\<close>

text \<open>
  The simplest environment: the levels the pin will read, in order, and a high line
  once they are used up. Driving the pin and waiting change nothing.
\<close>

definition script_read :: "u8 list \<Rightarrow> u8 \<times> u8 list" where
  "script_read s = (case s of [] \<Rightarrow> (1, []) | x # xs \<Rightarrow> (x, xs))"

definition script_io :: "u8 list gpin" where
  "script_io =
     \<lparr>gpio_output_set_high = (\<lambda>s. s), gpio_output_set_low = (\<lambda>s. s),
      gpio_configure_output = (\<lambda>s. s), gpio_configure_input_hiz = (\<lambda>s. s),
      gpio_input_read = script_read,
      delay_us = (\<lambda>n s. s), delay_ms = (\<lambda>n s. s)\<rparr>"

text \<open>
  Scratchpad frames and the line levels that deliver them, least significant bit
  first: the two frames of the measurement scenario of the spec (voltage bytes
  \<open>0x0064\<close> and \<open>0x01F4\<close>, temperature bytes \<open>0x19\<close> and \<open>0x30\<close>), each with its
  CRC-8 in byte 8; the first frame with the lowest bit of its CRC byte flipped; and a
  frame whose temperature MSB is \<open>0xFF\<close>.
\<close>

definition frame_vad :: "u8 list" where
  "frame_vad = [0x00, 0x30, 0x19, 0x64, 0x00, 0, 0, 0, 0xD7]"

definition frame_vdd :: "u8 list" where
  "frame_vdd = [0x00, 0x30, 0x19, 0xF4, 0x01, 0, 0, 0, 0xEF]"

definition levels_vad :: "u8 list" where
  "levels_vad =
      [0, 0, 0, 0, 0, 0, 0, 0, 0, 0, 0, 0, 1, 1, 0, 0, 1, 0, 0, 1, 1, 0, 0, 0, 0, 0, 1,
      0, 0, 1, 1, 0, 0, 0, 0, 0, 0, 0, 0, 0, 0, 0, 0, 0, 0, 0, 0, 0, 0, 0, 0, 0, 0, 0,
      0, 0, 0, 0, 0, 0, 0, 0, 0, 0, 1, 1, 1, 0, 1, 0, 1, 1]"

definition levels_vdd :: "u8 list" where
  "levels_vdd =
      [0, 0, 0, 0, 0, 0, 0, 0, 0, 0, 0, 0, 1, 1, 0, 0, 1, 0, 0, 1, 1, 0, 0, 0, 0, 0, 1,
      0, 1, 1, 1, 1, 1, 0, 0, 0, 0, 0, 0, 0, 0, 0, 0, 0, 0, 0, 0, 0, 0, 0, 0, 0, 0, 0,
      0, 0, 0, 0, 0, 0, 0, 0, 0, 0, 1, 1, 1, 1, 0, 1, 1, 1]"

definition levels_bad :: "u8 list" where
  "levels_bad =
      [0, 0, 0, 0, 0, 0, 0, 0, 0, 0, 0, 0, 1, 1, 0, 0, 1, 0, 0, 1, 1, 0, 0, 0, 0, 0, 1,
      0, 0, 1, 1, 0, 0, 0, 0, 0, 0, 0, 0, 0, 0, 0, 0, 0, 0, 0, 0, 0, 0, 0, 0, 0, 0, 0,
      0, 0, 0, 0, 0, 0, 0, 0, 0, 0, 0, 1, 1, 0, 1, 0, 1, 1]"

definition frame_cold :: "u8 list" where
  "frame_cold = [0x00, 0x30, 0xFF, 0xF4, 0x01, 0, 0, 0, 0x74]"

definition levels_cold :: "u8 list" where
  "levels_cold =
      [0, 0, 0, 0, 0, 0, 0, 0, 0, 0, 0, 0, 1, 1, 0, 0, 1, 1, 1, 1, 1, 1, 1, 1, 0, 0, 1,
      0, 1, 1, 1, 1, 1, 0, 0, 0, 0, 0, 0, 0, 0, 0, 0, 0, 0, 0, 0, 0, 0, 0, 0, 0, 0, 0,
      0, 0, 0, 0, 0, 0, 0, 0, 0, 0, 0, 0, 1, 0, 1, 1, 1, 0]"








subsection \<open>An arithmetic for the examples\<close>

text \<open>
  Exact arithmetic on the reals, for the examples: \<open>None\<close> is the result of a
  division by zero and of any operation on such a result, printed \<open>nan\<close>. The
  printed form has three decimals, rounded half up, as \<^verbatim>\<open>%0.3f\<close> has. The examples
  stay where the machine's rounded arithmetic prints the same digits.
\<close>

definition digit_char :: "nat \<Rightarrow> char" where
  "digit_char d = ''0123456789'' ! d"

function digits :: "nat \<Rightarrow> string" where
  "digits n = (if n < 10 then [digit_char n] else digits (n div 10) @ [digit_char (n mod 10)])"
  by pat_completeness auto
termination
  by (relation "measure id") auto

declare digits.simps [simp del]

definition dec3 :: "real \<Rightarrow> string" where
  "dec3 x =
     (let n = nat \<lfloor>\<bar>x\<bar> * 1000 + 1 / 2\<rfloor>
      in (if x < 0 then ''-'' else []) @ digits (n div 1000) @ ''.'' @
         [digit_char (n div 100 mod 10), digit_char (n div 10 mod 10), digit_char (n mod 10)])"

definition exact_op :: "(real \<Rightarrow> real \<Rightarrow> real) \<Rightarrow> real option \<Rightarrow> real option \<Rightarrow> real option" where
  "exact_op f x y =
     (case x of None \<Rightarrow> None | Some a \<Rightarrow> (case y of None \<Rightarrow> None | Some c \<Rightarrow> Some (f a c)))"

definition exact_flt :: "real option flt" where
  "exact_flt =
     \<lparr>flt_of_int = (\<lambda>k. Some (of_int k)), flt_lit = Some,
      flt_add = exact_op (+), flt_sub = exact_op (-), flt_mul = exact_op (*),
      flt_div = (\<lambda>x y. if y = Some 0 then None else exact_op (/) x y),
      flt_fmt = (\<lambda>x. case x of None \<Rightarrow> ''nan'' | Some r \<Rightarrow> dec3 r)\<rparr>"

subsection \<open>A bus with devices\<close>

text \<open>
  Modelled from the spec: the devices on the wire are hardware, outside the source.
  The spec describes them from the master's side: a device answers a reset pulse
  (line low for at least 480 us) with a presence pulse that covers the master's
  sample 70 us after the release; a low shorter than 15 us is a one or a read slot,
  a longer one is a zero; after the command byte \<open>0xF0\<close>, at each of the 64 bit
  positions, every device still taking part sends its bit, then the complement of its
  bit, on a wired-AND line (a device sends a zero by holding the line low past the
  master's sample), then reads the master's bit and drops out if it differs from its
  own. Any other command byte sends the devices back to waiting for a reset.
\<close>

datatype phase = Idle | Command | Search

record slaves =
  devices :: "64 word list"
  phase :: phase
  nbits :: nat
  shreg :: u8
  active :: "64 word list"

definition slaves_reset :: "slaves \<Rightarrow> slaves" where
  "slaves_reset sl = sl\<lparr>phase := Command, nbits := 0, shreg := 0, active := devices sl\<rparr>"

definition slaves_present :: "slaves \<Rightarrow> bool" where
  "slaves_present sl = (devices sl \<noteq> [])"

text \<open>
  Whether some device holds the line low in the slot that starts now. In the search
  slot \<open>3 * p\<close> the devices send bit \<open>p\<close>, in slot \<open>3 * p + 1\<close> its complement.
\<close>

definition slaves_pull :: "slaves \<Rightarrow> bool" where
  "slaves_pull sl =
     (phase sl = Search \<and>
      (if nbits sl mod 3 = 0 then list_ex (\<lambda>d. \<not> bit d (nbits sl div 3)) (active sl)
       else if nbits sl mod 3 = 1 then list_ex (\<lambda>d. bit d (nbits sl div 3)) (active sl)
       else False))"

text \<open>The end of a slot; \<open>v\<close> tells a short low from a long one.\<close>

definition slaves_slot :: "bool \<Rightarrow> slaves \<Rightarrow> slaves" where
  "slaves_slot v sl =
     (case phase sl of
        Idle \<Rightarrow> sl
      | Command \<Rightarrow>
          (let sh = (if v then shreg sl OR push_bit (nbits sl) 1 else shreg sl)
           in if nbits sl + 1 < 8 then sl\<lparr>nbits := nbits sl + 1, shreg := sh\<rparr>
              else if sh = 0xF0 then sl\<lparr>phase := Search, nbits := 0, shreg := sh\<rparr>
              else sl\<lparr>phase := Idle, nbits := 0, shreg := sh\<rparr>)
      | Search \<Rightarrow>
          (let sl = (if nbits sl mod 3 = 2
                     then sl\<lparr>active := filter (\<lambda>d. bit d (nbits sl div 3) = v) (active sl)\<rparr>
                     else sl)
           in if nbits sl + 1 < 192 then sl\<lparr>nbits := nbits sl + 1\<rparr>
              else sl\<lparr>phase := Idle, nbits := 0\<rparr>))"

text \<open>
  The pin: its direction and output latch, the time in microseconds, the time of the
  last falling edge the master made, and the window in which a device holds the line
  low.
\<close>

record sim =
  drive :: bool
  latch :: bool
  clock :: nat
  fell :: nat
  pull_from :: nat
  pull_until :: nat
  slaves :: slaves

definition master_low :: "sim \<Rightarrow> bool" where
  "master_low s = (drive s \<and> \<not> latch s)"

text \<open>What an edge on the line does; \<open>was\<close> is the master's pull before the change.\<close>

definition sim_edge :: "bool \<Rightarrow> sim \<Rightarrow> sim" where
  "sim_edge was s =
     (if \<not> was \<and> master_low s
      then s\<lparr>fell := clock s, pull_from := clock s,
             pull_until := (if slaves_pull (slaves s) then clock s + 30 else clock s)\<rparr>
      else if was \<and> \<not> master_low s
      then (if 480 \<le> clock s - fell s
            then s\<lparr>pull_from := clock s + 30,
                   pull_until := (if slaves_present (slaves s) then clock s + 150 else clock s + 30),
                   slaves := slaves_reset (slaves s)\<rparr>
            else s\<lparr>slaves := slaves_slot (clock s - fell s < 15) (slaves s)\<rparr>)
      else s)"

definition sim_read :: "sim \<Rightarrow> u8 \<times> sim" where
  "sim_read s =
     (if master_low s \<or> (pull_from s \<le> clock s \<and> clock s < pull_until s) then 0 else 1, s)"

definition sim_io :: "sim gpin" where
  "sim_io =
     \<lparr>gpio_output_set_high = (\<lambda>s. sim_edge (master_low s) (s\<lparr>latch := True\<rparr>)),
      gpio_output_set_low = (\<lambda>s. sim_edge (master_low s) (s\<lparr>latch := False\<rparr>)),
      gpio_configure_output = (\<lambda>s. sim_edge (master_low s) (s\<lparr>drive := True\<rparr>)),
      gpio_configure_input_hiz = (\<lambda>s. sim_edge (master_low s) (s\<lparr>drive := False\<rparr>)),
      gpio_input_read = sim_read,
      delay_us = (\<lambda>n s. s\<lparr>clock := clock s + n\<rparr>),
      delay_ms = (\<lambda>n s. s\<lparr>clock := clock s + 1000 * n\<rparr>)\<rparr>"

text \<open>A bus at rest with the given devices on it.\<close>

definition sim_bus :: "64 word list \<Rightarrow> sim" where
  "sim_bus ds =
     \<lparr>drive = False, latch = False, clock = 0, fell = 0, pull_from = 0, pull_until = 0,
      slaves = \<lparr>devices = ds, phase = Idle, nbits = 0, shreg = 0, active = []\<rparr>\<rparr>"

subsection \<open>Four devices of which the search finds three\<close>

text \<open>
  Four DS2438 ROM codes: family code \<open>0x26\<close>, serial numbers 0, 2, 6 and 10 in the
  first serial byte, and the CRC-8 of the seven bytes before it in byte 7. The states
  are the ones the first three calls of \<^verbatim>\<open>onewire_search\<close> leave on this bus, and
  \<open>bug_bus\<close> is the bus between the slots, \<open>t\<close> microseconds after the start.
\<close>

definition bug_devices :: "64 word list" where
  "bug_devices = [0x6100000000000026, 0x0F00000000000226, 0xD300000000000626, 0xAE00000000000A26]"

definition bug_state1 :: onewire_search_state where
  "bug_state1 = \<lparr>lastZeroBranch = 9, search_done = False, address = [0x26, 0, 0, 0, 0, 0, 0, 0x61]\<rparr>"

definition bug_state2 :: onewire_search_state where
  "bug_state2 = \<lparr>lastZeroBranch = 11, search_done = False, address = [0x26, 2, 0, 0, 0, 0, 0, 0x0F]\<rparr>"

definition bug_state3 :: onewire_search_state where
  "bug_state3 = \<lparr>lastZeroBranch = 11, search_done = True, address = [0x26, 6, 0, 0, 0, 0, 0, 0xD3]\<rparr>"

definition bug_bus :: "nat \<Rightarrow> phase \<Rightarrow> 64 word list \<Rightarrow> sim" where
  "bug_bus t ph act =
     \<lparr>drive = True, latch = True, clock = t + 60, fell = t, pull_from = t, pull_until = t,
      slaves = \<lparr>devices = bug_devices, phase = ph, nbits = 0, shreg = 0xF0, active = act\<rparr>\<rparr>"

section \<open>Properties\<close>

subsection \<open>CRC-8\<close>

subsubsection \<open>The shift register is linear and injective\<close>

lemma funpow_8: "(f ^^ 8) x = f (f (f (f (f (f (f (f x)))))))"
  by (simp add: eval_nat_numeral)

lemma crc_shift_alt: "crc_shift x = drop_bit 1 x XOR (if bit x 0 then 0x8C else 0)"
  by (simp add: crc_shift_def bit_0 and_one_eq word_eq_iff_unsigned [where ?'a = nat] even_iff_mod_2_eq_zero)

lemma crc_shift_xor: "crc_shift (x XOR y) = crc_shift x XOR crc_shift y"
  by (simp add: crc_shift_alt bit_xor_iff ac_simps)

lemma xor_eq_zero_word: "x XOR y = 0 \<Longrightarrow> x = y" for x y :: "'a::len word"
  by (metis xor.assoc xor_self_eq xor.right_neutral)

lemma xor_left_cancel_word: "c XOR d = c XOR d' \<Longrightarrow> d = d'" for c d d' :: "'a::len word"
  by (metis xor.assoc xor_self_eq xor.left_neutral)

lemma xor_right_cancel_word: "c XOR d = c' XOR d \<Longrightarrow> c = c'" for c c' d :: "'a::len word"
  by (metis xor.assoc xor_self_eq xor.right_neutral)

lemma crc_shift_eq_zero:
  assumes "crc_shift x = 0" shows "x = 0"
proof -
  have top: "bit (crc_shift x) 7 = bit x 0"
    using bit_imp_le_length [of x 8]
    by (auto simp add: crc_shift_alt bit_xor_iff bit_drop_bit_eq)
  from assms top have lo: "\<not> bit x 0" by simp
  with assms have d: "drop_bit 1 x = 0" by (simp add: crc_shift_alt)
  have "\<not> bit x (Suc n)" for n
  proof -
    have "bit (drop_bit 1 x) n = bit x (Suc n)" by (simp add: bit_drop_bit_eq)
    with d show ?thesis by simp
  qed
  with lo have "\<not> bit x n" for n by (cases n) simp_all
  then show ?thesis by (simp add: bit_eq_iff)
qed

lemma crc_shift_inj: "crc_shift x = crc_shift y \<Longrightarrow> x = y"
proof -
  assume "crc_shift x = crc_shift y"
  then have "crc_shift (x XOR y) = 0" by (simp add: crc_shift_xor)
  then have "x XOR y = 0" by (rule crc_shift_eq_zero)
  then show "x = y" by (rule xor_eq_zero_word) 
qed

lemma crc_shift_pow_inj: "(crc_shift ^^ n) x = (crc_shift ^^ n) y \<Longrightarrow> x = y"
  by (induction n) (auto dest: crc_shift_inj)

lemma crc_update_inj_data: "crc_ibutton_update c d = crc_ibutton_update c d' \<Longrightarrow> d = d'"
  unfolding crc_ibutton_update_def by (blast dest: crc_shift_pow_inj xor_left_cancel_word)

lemma crc_update_inj_crc: "crc_ibutton_update c d = crc_ibutton_update c' d \<Longrightarrow> c = c'"
  unfolding crc_ibutton_update_def by (blast dest: crc_shift_pow_inj xor_right_cancel_word)

lemma foldl_crc_inj: "foldl crc_ibutton_update c xs = foldl crc_ibutton_update c' xs \<Longrightarrow> c = c'"
  by (induction xs arbitrary: c c') (auto dest: crc_update_inj_crc)

lemma crc8_loop_foldl:
  "unat len \<le> length data \<Longrightarrow> i \<le> len \<Longrightarrow>
   crc8_loop data len i crc = Some (foldl crc_ibutton_update crc (drop (unat i) (take (unat len) data)))"
proof (induction data len i crc rule: crc8_loop.induct)
  case (1 data len i crc)
  show ?case
  proof (cases "i < len")
    case True
    then have lt: "unat i < unat len" by (simp add: word_less_nat_alt)
    then have suc: "unat (i + 1) = Suc (unat i)"
      using unsigned_less [of len, where ?'a = nat] by (simp add: unat_word_ariths)
    from lt suc have le: "i + 1 \<le> len" by (simp add: word_le_nat_alt)
    from lt "1.prems" have inb: "unat i < length data" by simp
    have "drop (unat i) (take (unat len) data) = data ! unat i # drop (Suc (unat i)) (take (unat len) data)"
      using lt inb by (simp add: Cons_nth_drop_Suc [symmetric])
    with "1.IH" [OF True inb "1.prems"(1) le] True inb suc show ?thesis
      by (simp del: crc8_loop.simps add: crc8_loop.simps [of data len i crc])
  next
    case False
    with "1.prems" have "i = len" by simp
    then show ?thesis by simp
  qed
qed

lemma crc8_foldl: "unat len \<le> length data \<Longrightarrow> crc8 data len = Some (foldl crc_ibutton_update 0 (take (unat len) data))"
  by (simp add: crc8_def crc8_loop_foldl del: crc8_loop.simps)



lemma foldl_crc_update_neq:
  "k < length xs \<Longrightarrow> v \<noteq> xs ! k \<Longrightarrow>
   foldl crc_ibutton_update c (xs[k := v]) \<noteq> foldl crc_ibutton_update c xs"
proof (induction xs arbitrary: k c)
  case Nil
  then show ?case by simp
next
  case (Cons x xs)
  show ?case
  proof (cases k)
    case 0
    with Cons.prems show ?thesis
      by (auto dest!: foldl_crc_inj crc_update_inj_data)
  next
    case (Suc k')
    with Cons show ?thesis by simp
  qed
qed

lemma flip_bit_neq: "j < 8 \<Longrightarrow> flip_bit j x \<noteq> x" for x :: u8
proof
  assume "j < 8" and "flip_bit j x = x"
  then have "bit (flip_bit j x) j = bit x j" by simp
  with \<open>j < 8\<close> show False by (simp add: bit_flip_bit_iff)
qed

lemma crc_checks_flip:
  assumes ok: "crc_checks data len" and k: "k \<le> unat len" and j: "j < 8"
  shows "\<not> crc_checks (data[k := flip_bit j (data ! k)]) len"
proof (cases "k = unat len")
  case True
  from ok have inb: "unat len < length data" and c: "crc8 data len = Some (data ! unat len)"
    by (simp_all add: crc_checks_def)
  have "take (unat len) (data[k := flip_bit j (data ! k)]) = take (unat len) data"
    using True by simp
  with inb have "crc8 (data[k := flip_bit j (data ! k)]) len = crc8 data len"
    by (simp add: crc8_foldl)
  with c True inb flip_bit_neq [OF j, of "data ! k"] show ?thesis
    by (auto simp: crc_checks_def)
next
  case False
  with k have lt: "k < unat len" by simp
  from ok have inb: "unat len < length data" and c: "crc8 data len = Some (data ! unat len)"
    by (simp_all add: crc_checks_def)
  let ?d = "data[k := flip_bit j (data ! k)]"
  have tk: "take (unat len) ?d = (take (unat len) data)[k := flip_bit j (data ! k)]"
    by (simp add: take_update_swap)
  have "foldl crc_ibutton_update 0 (take (unat len) ?d) \<noteq> foldl crc_ibutton_update 0 (take (unat len) data)"
    unfolding tk using lt inb flip_bit_neq [OF j, of "data ! k"]
    by (intro foldl_crc_update_neq) simp_all
  with inb have "crc8 ?d len \<noteq> crc8 data len"
    by (simp add: crc8_foldl)
  moreover have "?d ! unat len = data ! unat len"
    using lt by simp
  ultimately show ?thesis using c by (simp add: crc_checks_def)
qed

lemma crc_checks_append:
  assumes "length s < 256"
  shows "\<exists>c. crc8 s (of_nat (length s)) = Some c \<and> crc_checks (s @ [c]) (of_nat (length s))"
proof -
  from assms have u: "unat (of_nat (length s) :: u8) = length s"
    by (simp add: unat_of_nat)
  then show ?thesis
    by (simp add: crc_checks_def crc8_foldl)
qed

lemma crc8_eval:
  "crc8 data len = crc8_loop data len 0 0"
  "crc_ibutton_update crc d = crc_shift (crc_shift (crc_shift (crc_shift
     (crc_shift (crc_shift (crc_shift (crc_shift (crc XOR d))))))))"
  by (simp_all add: crc8_def crc_ibutton_update_def funpow_8)

text \<open>
  C9. A block that passes the check stops passing it when any single bit of any of its
  bytes (the \<open>len\<close> data bytes or the check byte) is flipped; and every byte sequence
  that \<^verbatim>\<open>crc8\<close> can be handed whole (its length fits the \<^verbatim>\<open>uint8_t\<close> count) passes
  the check once its CRC-8 is appended.
\<close>

theorem crc8_single_bit_and_round_trip:
  "(crc_checks data len \<and> k \<le> unat len \<and> j < 8 \<longrightarrow>
      \<not> crc_checks (data[k := flip_bit j (data ! k)]) len) \<and>
   (length s < 256 \<longrightarrow>
      (\<exists>c. crc8 s (of_nat (length s)) = Some c \<and> crc_checks (s @ [c]) (of_nat (length s))))"
proof (intro conjI impI)
  assume "crc_checks data len \<and> k \<le> unat len \<and> j < 8"
  then show "\<not> crc_checks (data[k := flip_bit j (data ! k)]) len"
    by (blast intro: crc_checks_flip [THEN notE])
next
  assume "length s < 256"
  then show "\<exists>c. crc8 s (of_nat (length s)) = Some c \<and> crc_checks (s @ [c]) (of_nat (length s))"
    by (rule crc_checks_append)
qed

theorem crc8_single_bit_and_round_trip_witness:
  "crc_checks [0x26, 0xFE] 1 \<and> \<not> crc_checks [0x2E, 0xFE] 1 \<and>
   (\<exists>c. crc8 [0x26] 1 = Some c \<and> crc_checks [0x26, c] 1)"
proof -
  have ok: "crc_checks [0x26, 0xFE] 1"
    by (simp add: crc_checks_def crc8_eval crc_shift_def)
  have fl: "[0x26, 0xFE :: u8][0 := flip_bit 3 ([0x26, 0xFE] ! 0)] = [0x2E, 0xFE]"
    by (simp add: flip_bit_eq_xor)
  from crc8_single_bit_and_round_trip [of "[0x26, 0xFE]" 1 0 3 "[0x26]"] ok fl
  show ?thesis by auto
qed


subsection \<open>The bus with devices, slot by slot\<close>

text \<open>
  On a line the master does not hold low, each of the three slot routines is one
  transaction of the devices: a reset, or a slot with a short or a long low.
\<close>

lemma sim_configure_input_hiz:
  "\<not> master_low s \<Longrightarrow> gpio_configure_input_hiz sim_io s = s\<lparr>drive := False\<rparr>"
  by (auto simp add: sim_io_def sim_edge_def master_low_def)

lemma sim_output_set_high:
  "\<not> master_low s \<Longrightarrow> gpio_output_set_high sim_io s = s\<lparr>latch := True\<rparr>"
  by (auto simp add: sim_io_def sim_edge_def master_low_def)

lemma sim_configure_output:
  "latch s \<Longrightarrow> gpio_configure_output sim_io s = s\<lparr>drive := True\<rparr>"
  by (auto simp add: sim_io_def sim_edge_def master_low_def)

lemma sim_read_bit:
  "\<not> master_low s \<Longrightarrow>
   onewire_read_bit sim_io s =
     (if slaves_pull (slaves s) then 0 else 1,
      s\<lparr>drive := False, latch := False, clock := clock s + 61, fell := clock s,
        pull_from := clock s,
        pull_until := (if slaves_pull (slaves s) then clock s + 30 else clock s),
        slaves := slaves_slot True (slaves s)\<rparr>)"
  by (cases "drive s"; cases "latch s")
     (auto simp add: onewire_read_bit_def sim_io_def sim_edge_def sim_read_def master_low_def)

lemma sim_write_bit:
  "\<not> master_low s \<Longrightarrow> drive s \<Longrightarrow>
   onewire_write_bit sim_io v s =
     s\<lparr>latch := True, clock := clock s + 60, fell := clock s, pull_from := clock s,
       pull_until := (if slaves_pull (slaves s) then clock s + 30 else clock s),
       slaves := slaves_slot (v \<noteq> 0) (slaves s)\<rparr>"
  by (cases "latch s")
     (auto simp add: onewire_write_bit_def sim_io_def sim_edge_def sim_read_def master_low_def)

lemma sim_write_bit_low:
  "master_low s \<Longrightarrow> fell s = clock s \<Longrightarrow>
   onewire_write_bit sim_io v s =
     s\<lparr>latch := True, clock := clock s + 60, slaves := slaves_slot (v \<noteq> 0) (slaves s)\<rparr>"
  by (auto simp add: onewire_write_bit_def sim_io_def sim_edge_def sim_read_def master_low_def)

lemma sim_reset:
  "\<not> master_low s \<Longrightarrow>
   onewire_reset sim_io s =
     (slaves_present (slaves s),
      s\<lparr>drive := False, latch := False, clock := clock s + 1010, fell := clock s,
        pull_from := clock s + 510,
        pull_until := (if slaves_present (slaves s) then clock s + 630 else clock s + 510),
        slaves := slaves_reset (slaves s)\<rparr>)"
  by (cases "drive s"; cases "latch s")
     (auto simp add: onewire_reset_def sim_io_def sim_edge_def sim_read_def master_low_def)

lemma onewire_write_loop_8:
  "onewire_write_loop io 8 byte b =
     onewire_write_bit io (drop_bit 7 byte AND 1)
       (onewire_write_bit io (drop_bit 6 byte AND 1)
       (onewire_write_bit io (drop_bit 5 byte AND 1)
       (onewire_write_bit io (drop_bit 4 byte AND 1)
       (onewire_write_bit io (drop_bit 3 byte AND 1)
       (onewire_write_bit io (drop_bit 2 byte AND 1)
       (onewire_write_bit io (drop_bit 1 byte AND 1)
       (onewire_write_bit io (byte AND 1)
       (b))))))))"
proof -
  have "onewire_write_loop io 8 byte b =
      onewire_write_loop io (Suc (Suc (Suc (Suc (Suc (Suc (Suc (Suc 0)))))))) byte b"
    by (simp add: eval_nat_numeral)
  then show ?thesis
    by (simp add: drop_bit_drop_bit eval_nat_numeral del: drop_bit_of_Suc_0 drop_bit_Suc)
qed

lemma sim_write_start:
  "\<not> master_low s \<Longrightarrow>
   onewire_write_bit sim_io v (gpio_configure_output sim_io (gpio_output_set_low sim_io s)) =
     s\<lparr>drive := True, latch := True, clock := clock s + 60, fell := clock s, pull_from := clock s,
       pull_until := (if slaves_pull (slaves s) then clock s + 30 else clock s),
       slaves := slaves_slot (v \<noteq> 0) (slaves s)\<rparr>"
  by (cases "drive s"; cases "latch s")
     (auto simp add: onewire_write_bit_def sim_io_def sim_edge_def sim_read_def master_low_def)

lemma slaves_slot_command:
  "phase sl = Command \<Longrightarrow> nbits sl < 7 \<Longrightarrow>
   slaves_slot v sl = sl\<lparr>nbits := nbits sl + 1, shreg := (if v then shreg sl OR push_bit (nbits sl) 1 else shreg sl)\<rparr>"
  by (simp add: slaves_slot_def Let_def)

lemma sim_write_command:
  assumes q: "\<not> master_low s" and ph: "phase (slaves s) = Command" and n: "nbits (slaves s) = 0"
  shows "onewire_write sim_io byte s =
     s\<lparr>drive := True, latch := True, clock := clock s + 480, fell := clock s + 420,
       pull_from := clock s + 420, pull_until := clock s + 420,
       slaves := slaves_slot (drop_bit 7 byte AND 1 \<noteq> 0) (slaves_slot (drop_bit 6 byte AND 1 \<noteq> 0)
         (slaves_slot (drop_bit 5 byte AND 1 \<noteq> 0) (slaves_slot (drop_bit 4 byte AND 1 \<noteq> 0)
         (slaves_slot (drop_bit 3 byte AND 1 \<noteq> 0) (slaves_slot (drop_bit 2 byte AND 1 \<noteq> 0)
         (slaves_slot (drop_bit 1 byte AND 1 \<noteq> 0) (slaves_slot (byte AND 1 \<noteq> 0) (slaves s))))))))\<rparr>"
  using assms
  by (simp add: onewire_write_def onewire_write_loop_8 sim_write_start sim_write_bit master_low_def
      slaves_slot_command slaves_pull_def)

lemma bit_index_1: "bit w (1::nat) = bit w (Suc 0)"
  by simp


subsection \<open>One pass of the search\<close>

lemma search_steps_failed:
  "search_steps io k v = (False, v') \<Longrightarrow> search_steps io (k + d) v = (False, v')"
  by (induction d) simp_all

lemma search_loop_from:
  "k \<le> 64 \<Longrightarrow> search_steps io k v = (True, v') \<Longrightarrow> search_loop io k v' = search_steps io 64 v"
proof (induction "64 - k" arbitrary: k v')
  case 0
  then have "k = 64" by simp
  with 0 show ?case by (simp add: search_loop.simps)
next
  case (Suc d)
  then have k: "k < 64" by simp
  obtain ok v'' where sb: "search_bit io k v' = (ok, v'')" by (cases "search_bit io k v'")
  with Suc.prems have st: "search_steps io (Suc k) v = (ok, v'')" by simp
  show ?case
  proof (cases ok)
    case True
    from Suc.hyps(2) have d: "d = 64 - Suc k" by simp
    from k have k': "Suc k \<le> 64" by simp
    from True st have st': "search_steps io (Suc k) v = (True, v'')" by simp
    have "search_loop io (Suc k) v'' = search_steps io 64 v"
      by (rule Suc.hyps(1) [OF d k' st'])
    with k sb True show ?thesis by (simp add: search_loop.simps [of io k])
  next
    case False
    from False st have st': "search_steps io (Suc k) v = (False, v'')" by simp
    from search_steps_failed [OF st', of "64 - Suc k"] k
    have "search_steps io 64 v = (False, v'')" by simp
    with k sb False show ?thesis by (simp add: search_loop.simps [of io k])
  qed
qed

lemma search_loop_steps: "search_loop io 0 v = search_steps io 64 v"
  by (rule search_loop_from) simp_all

lemma search_steps_ok_prefix:
  "search_steps io n v = (True, v') \<Longrightarrow> k \<le> n \<Longrightarrow> fst (search_steps io k v)"
proof (rule ccontr)
  assume a: "search_steps io n v = (True, v')" and k: "k \<le> n" and "\<not> fst (search_steps io k v)"
  then obtain w where "search_steps io k v = (False, w)" by (cases "search_steps io k v") auto
  from search_steps_failed [OF this, of "n - k"] k a show False by simp
qed

lemma bit_clear_u8:
  "bit (x AND NOT (push_bit bi 1)) j \<longleftrightarrow> bit x j \<and> j \<noteq> bi" for x :: u8
  by (auto simp: bit_and_iff bit_not_iff bit_exp_iff dest: bit_imp_le_length)

lemma bit_set_u8:
  "bi < 8 \<Longrightarrow> bit (x OR push_bit bi 1) j \<longleftrightarrow> bit x j \<or> j = bi" for x :: u8
  by (auto simp: bit_or_iff bit_exp_iff)

lemma bit_set_twice_u8:
  "j \<le> bi \<Longrightarrow> bit x bi \<Longrightarrow> bit (x OR push_bit bi (push_bit bi 1)) j \<longleftrightarrow> bit x j" for x :: u8
proof (cases "bi = 0")
  case True
  assume "j \<le> bi" "bit x bi"
  with True show ?thesis by (simp add: bit_or_iff)
next
  case False
  assume "j \<le> bi" "bit x bi"
  with False have "\<not> bi + bi \<le> j" by simp
  then show ?thesis
    by (auto simp: bit_or_iff bit_push_bit_iff bit_exp_iff simp del: push_bit_of_1)
qed

lemma bit_set_twice_u8_add:
  "j \<le> bi \<Longrightarrow> bit x bi \<Longrightarrow> bit (x OR push_bit (bi + bi) 1) j \<longleftrightarrow> bit x j" for x :: u8
  using bit_set_twice_u8 [of j bi x] by (simp add: push_bit_add del: push_bit_of_1)

lemma and_single_bit_u8:
  "x AND push_bit bi 1 = (if bit x bi then push_bit bi 1 else 0)" for x :: u8
  by (rule bit_word_eqI) (auto simp: bit_and_iff bit_exp_iff)

lemma search_write_fields:
  "bitValue (search_write io p v) = bitValue v"
  "localLastZeroBranch (search_write io p v) = localLastZeroBranch v"
  "address (state (search_write io p v)) = put_bit (address (state v)) p (bitValue v)"
  "lastZeroBranch (state (search_write io p v)) = lastZeroBranch (state v)"
  "search_done (state (search_write io p v)) = search_done (state v)"
  by (simp_all add: search_write_def put_bit_def Let_def)

lemma search_conflict_fields:
  "state (search_conflict p v) = state v"
  "bus (search_conflict p v) = bus v"
  "bitValue (search_conflict p v) =
     (if int p = lastZeroBranch (state v) then 1
      else if int p < lastZeroBranch (state v)
      then address (state v) ! (p div 8) AND push_bit (p mod 8) 1 else 0)"
  "localLastZeroBranch (search_conflict p v) =
     (if bitValue (search_conflict p v) = 0 then int p else localLastZeroBranch v)"
  by (simp_all add: search_conflict_def Let_def)

lemma search_bit_address:
  assumes "search_bit io p v = (True, v')"
  shows "bit_shape (address (state v)) p (bitValue v') \<and>
         address (state v') = put_bit (address (state v)) p (bitValue v') \<and>
         lastZeroBranch (state v') = lastZeroBranch (state v) \<and>
         search_done (state v') = search_done (state v)"
proof -
  obtain reading b where r: "search_reading io (bus v) = (reading, b)"
    by (cases "search_reading io (bus v)")
  consider "reading = kZero \<or> reading = kOne" | "reading \<noteq> kZero" "reading \<noteq> kOne" "reading = kConflict"
    using assms r by (auto simp: search_bit_def Let_def kZero_def kOne_def kConflict_def split: if_splits)
  then show ?thesis
  proof cases
    case 1
    then have "reading AND 1 = 0 \<or> reading AND 1 = 1"
      by (auto simp: kZero_def kOne_def)
    with 1 assms r show ?thesis
      by (auto simp: search_bit_def search_write_fields bit_shape_def)
  next
    case 2
    with assms r show ?thesis
      by (auto simp: search_bit_def search_write_fields search_conflict_fields bit_shape_def
          and_single_bit_u8 simp del: push_bit_of_1 split: if_splits)
  qed
qed

lemma put_bit_length: "length (put_bit a p bv) = length a"
  by (simp add: put_bit_def)

lemma put_bit_at:
  assumes "length a = 8" "p < 64" "bit_shape a p bv"
  shows "bit (put_bit a p bv ! (p div 8)) (p mod 8) = (bv \<noteq> 0)"
proof -
  from assms have inb: "p div 8 < length a" by simp
  have m: "p mod 8 < 8" by simp
  from assms(3) consider "bv = 0" | "bv = 1" | "bv \<noteq> 0" "bv = push_bit (p mod 8) 1" "bit (a ! (p div 8)) (p mod 8)"
    by (auto simp: bit_shape_def)
  then show ?thesis
  proof cases
    case 1
    with inb show ?thesis by (simp add: put_bit_def bit_clear_u8 del: push_bit_of_1)
  next
    case 2
    with inb m show ?thesis by (simp add: put_bit_def bit_set_u8 del: push_bit_of_1)
  next
    case 3
    with inb show ?thesis by (simp add: put_bit_def bit_set_twice_u8_add del: push_bit_of_1)
  qed
qed

lemma put_bit_below:
  assumes "length a = 8" "p < 64" "bit_shape a p bv" "q < p"
  shows "bit (put_bit a p bv ! (q div 8)) (q mod 8) = bit (a ! (q div 8)) (q mod 8)"
proof (cases "q div 8 = p div 8")
  case False
  then show ?thesis by (simp add: put_bit_def)
next
  case True
  from assms have inb: "p div 8 < length a" by simp
  from True assms(4) have lt: "q mod 8 < p mod 8"
    by (metis div_mult_mod_eq nat_add_left_cancel_less)
  have m: "p mod 8 < 8" by simp
  from assms(3) consider "bv = 0" | "bv = 1" | "bv \<noteq> 0" "bv = push_bit (p mod 8) 1" "bit (a ! (p div 8)) (p mod 8)"
    by (auto simp: bit_shape_def)
  then show ?thesis
  proof cases
    case 1
    with inb True lt show ?thesis by (simp add: put_bit_def bit_clear_u8 del: push_bit_of_1)
  next
    case 2
    with inb True lt m show ?thesis by (simp add: put_bit_def bit_set_u8 del: push_bit_of_1)
  next
    case 3
    with inb True lt show ?thesis by (simp add: put_bit_def bit_set_twice_u8_add del: push_bit_of_1)
  qed
qed

lemma search_steps_Suc_ok:
  "search_steps io (Suc n) v = (True, v') \<Longrightarrow>
   \<exists>w. search_steps io n v = (True, w) \<and> search_bit io n w = (True, v')"
  by (cases "search_steps io n v") (auto split: if_splits)

lemma search_steps_address:
  assumes "search_steps io n v = (True, v')" "n \<le> 64" "length (address (state v)) = 8"
  shows "length (address (state v')) = 8 \<and>
         lastZeroBranch (state v') = lastZeroBranch (state v) \<and>
         search_done (state v') = search_done (state v) \<and>
         (\<forall>p<n. bit (address (state v') ! (p div 8)) (p mod 8) =
                  (bitValue (snd (search_steps io (Suc p) v)) \<noteq> 0))"
  using assms
proof (induction n arbitrary: v')
  case 0
  then show ?case by simp
next
  case (Suc n)
  from search_steps_Suc_ok [OF Suc.prems(1)] obtain w where
    w: "search_steps io n v = (True, w)" and sb: "search_bit io n w = (True, v')" by blast
  from Suc.IH [OF w _ Suc.prems(3)] Suc.prems(2)
  have len: "length (address (state w)) = 8"
    and lz: "lastZeroBranch (state w) = lastZeroBranch (state v)"
    and dn: "search_done (state w) = search_done (state v)"
    and ih: "\<forall>p<n. bit (address (state w) ! (p div 8)) (p mod 8) =
                  (bitValue (snd (search_steps io (Suc p) v)) \<noteq> 0)"
    by simp_all
  from search_bit_address [OF sb]
  have sh: "bit_shape (address (state w)) n (bitValue v')"
    and ad: "address (state v') = put_bit (address (state w)) n (bitValue v')"
    and lz': "lastZeroBranch (state v') = lastZeroBranch (state w)"
    and dn': "search_done (state v') = search_done (state w)"
    by simp_all
  from Suc.prems(2) have n: "n < 64" by simp
  have "bit (address (state v') ! (p div 8)) (p mod 8) =
          (bitValue (snd (search_steps io (Suc p) v)) \<noteq> 0)" if "p < Suc n" for p
  proof (cases "p = n")
    case True
    with put_bit_at [OF len n sh] ad Suc.prems(1) show ?thesis by simp
  next
    case False
    with that have "p < n" by simp
    with put_bit_below [OF len n sh this] ad ih show ?thesis by simp
  qed
  with len ad lz lz' dn dn' show ?case by (simp add: put_bit_length)
qed


lemma search_steps_fields:
  assumes "search_steps io n v = (True, v')"
  shows "lastZeroBranch (state v') = lastZeroBranch (state v)"
    and "search_done (state v') = search_done (state v)"
  using assms
proof (induction n arbitrary: v')
  case 0
  {
    case 1 then show ?case by simp
  next
    case 2 then show ?case by simp
  }
next
  case (Suc n)
  {
    case 1
    from search_steps_Suc_ok [OF 1] obtain w where
      w: "search_steps io n v = (True, w)" and sb: "search_bit io n w = (True, v')" by blast
    from Suc.IH(1) [OF w] search_bit_address [OF sb] show ?case by simp
  next
    case 2
    from search_steps_Suc_ok [OF 2] obtain w where
      w: "search_steps io n v = (True, w)" and sb: "search_bit io n w = (True, v')" by blast
    from Suc.IH(2) [OF w] search_bit_address [OF sb] show ?case by simp
  }
qed

lemma search_next_ok:
  assumes "search_next io st b = (True, st', b')"
  obtains v where "search_steps io 64 (search_start st b) = (True, v)"
    and "address st' = address (state v)" and "b' = bus v"
    and "st' = (if localLastZeroBranch v = - 1 then (state v)\<lparr>search_done := True\<rparr>
               else (state v)\<lparr>lastZeroBranch := localLastZeroBranch v\<rparr>)"
proof -
  obtain ok v where l: "search_loop io 0 (search_start st b) = (ok, v)"
    by (cases "search_loop io 0 (search_start st b)")
  with assms have ok by (auto simp: search_next_def search_start_def split: if_splits)
  with l have "search_steps io 64 (search_start st b) = (True, v)"
    by (simp add: search_loop_steps)
  moreover from assms l \<open>ok\<close> have "address st' = address (state v)" "b' = bus v"
    "st' = (if localLastZeroBranch v = - 1 then (state v)\<lparr>search_done := True\<rparr>
               else (state v)\<lparr>lastZeroBranch := localLastZeroBranch v\<rparr>)"
    by (auto simp: search_next_def search_start_def split: if_splits)
  ultimately show thesis by (rule that)
qed

lemma search_bit_local:
  assumes "search_bit io p w = (True, v')"
  shows "localLastZeroBranch v' =
     (if fst (search_reading io (bus w)) = kConflict \<and> bitValue v' = 0 then int p
      else localLastZeroBranch w)"
proof -
  obtain reading b where r: "search_reading io (bus w) = (reading, b)"
    by (cases "search_reading io (bus w)")
  with assms show ?thesis
    by (auto simp: search_bit_def Let_def search_write_fields search_conflict_fields
        kZero_def kOne_def kConflict_def split: if_splits)
qed

lemma zero_branch_set_Suc:
  "{p. p < Suc n \<and> Z p} = (if Z n then insert n {p. p < n \<and> Z p} else {p. p < n \<and> Z p})"
  by (auto simp: less_Suc_eq)

lemma search_steps_local:
  assumes "search_steps io n v = (True, v')"
  shows "localLastZeroBranch v' =
     (if \<exists>p<n. zero_branch io v p then int (Max {p. p < n \<and> zero_branch io v p})
      else localLastZeroBranch v)"
  using assms
proof (induction n arbitrary: v')
  case 0
  then show ?case by simp
next
  case (Suc n)
  from search_steps_Suc_ok [OF Suc.prems] obtain w where
    w: "search_steps io n v = (True, w)" and sb: "search_bit io n w = (True, v')" by blast
  have z: "zero_branch io v n \<longleftrightarrow> fst (search_reading io (bus w)) = kConflict \<and> bitValue v' = 0"
    using w Suc.prems by (simp add: zero_branch_def)
  let ?S = "{p. p < n \<and> zero_branch io v p}"
  have fin: "finite ?S" by simp
  show ?case
  proof (cases "zero_branch io v n")
    case True
    have "Max (insert n ?S) = n"
      by (rule Max_eqI) (auto simp: less_imp_le)
    with True z search_bit_local [OF sb] show ?thesis
      by (auto simp: zero_branch_set_Suc)
  next
    case False
    then have "(\<exists>p<Suc n. zero_branch io v p) \<longleftrightarrow> (\<exists>p<n. zero_branch io v p)"
      by (auto simp: less_Suc_eq)
    with False z search_bit_local [OF sb] Suc.IH [OF w] show ?thesis
      by (auto simp: zero_branch_set_Suc)
  qed
qed

subsection \<open>A bus with one device\<close>

lemma sim_search_bit_single:
  assumes q: "\<not> master_low (bus v)"
    and sl: "slaves (bus v) = \<lparr>devices = ds, phase = Search, nbits = 3 * p, shreg = sh, active = [rom]\<rparr>"
    and p: "p < 64"
  shows "\<exists>v'. search_bit sim_io p v = (True, v') \<and>
           bitValue v' = (if bit rom p then 1 else 0) \<and>
           localLastZeroBranch v' = localLastZeroBranch v \<and>
           \<not> master_low (bus v') \<and>
           slaves (bus v') =
             (if p = 63 then \<lparr>devices = ds, phase = Idle, nbits = 0, shreg = sh, active = [rom]\<rparr>
              else \<lparr>devices = ds, phase = Search, nbits = 3 * (p + 1), shreg = sh, active = [rom]\<rparr>)"
proof -
  have m: "(3 * p) mod 3 = 0" "Suc (3 * p) mod 3 = 1" "Suc (Suc (3 * p)) mod 3 = 2"
    "(3 * p) div 3 = p" "Suc (3 * p) div 3 = p" "Suc (Suc (3 * p)) div 3 = p"
    by presburger+
  from p have lt: "Suc (Suc (Suc (3 * p))) < 192 \<longleftrightarrow> p \<noteq> 63" by presburger
  show ?thesis
    using q sl p m lt
    by (simp add: search_bit_def search_reading_def search_write_def sim_configure_input_hiz
        sim_output_set_high sim_configure_output sim_read_bit sim_write_bit master_low_def
        slaves_pull_def slaves_slot_def Let_def kZero_def kOne_def kConflict_def)
qed

lemma sim_search_steps_single:
  assumes q: "\<not> master_low (bus v)"
    and sl: "slaves (bus v) = \<lparr>devices = ds, phase = Search, nbits = 0, shreg = sh, active = [rom]\<rparr>"
    and n: "n \<le> 64"
  shows "\<exists>v'. search_steps sim_io n v = (True, v') \<and>
           (0 < n \<longrightarrow> bitValue v' = (if bit rom (n - 1) then 1 else 0)) \<and>
           localLastZeroBranch v' = localLastZeroBranch v \<and>
           \<not> master_low (bus v') \<and>
           slaves (bus v') =
             (if n = 64 then \<lparr>devices = ds, phase = Idle, nbits = 0, shreg = sh, active = [rom]\<rparr>
              else \<lparr>devices = ds, phase = Search, nbits = 3 * n, shreg = sh, active = [rom]\<rparr>)"
  using n
proof (induction n)
  case 0
  with q sl show ?case by simp
next
  case (Suc n)
  then have n: "n < 64" by simp
  with Suc.IH obtain w where w: "search_steps sim_io n v = (True, w)"
    and wl: "localLastZeroBranch w = localLastZeroBranch v"
    and wq: "\<not> master_low (bus w)"
    and ws: "slaves (bus w) = \<lparr>devices = ds, phase = Search, nbits = 3 * n, shreg = sh, active = [rom]\<rparr>"
    by auto
  from sim_search_bit_single [OF wq ws n] obtain v' where
    "search_bit sim_io n w = (True, v')" "bitValue v' = (if bit rom n then 1 else 0)"
    "localLastZeroBranch v' = localLastZeroBranch w" "\<not> master_low (bus v')"
    "slaves (bus v') =
       (if n = 63 then \<lparr>devices = ds, phase = Idle, nbits = 0, shreg = sh, active = [rom]\<rparr>
        else \<lparr>devices = ds, phase = Search, nbits = 3 * (n + 1), shreg = sh, active = [rom]\<rparr>)"
    by blast
  with w wl show ?case by auto
qed

lemma sim_search_single:
  assumes q: "\<not> master_low s" and d: "devices (slaves s) = [rom]"
    and len: "length (address st) = 8" and nd: "\<not> search_done st"
  shows "\<exists>st' s'. onewire_search sim_io st s = (True, st', s') \<and> search_done st' \<and>
           lastZeroBranch st' = lastZeroBranch st \<and>
           (\<forall>p<64. bit (address st' ! (p div 8)) (p mod 8) = bit rom p)"
proof -
  let ?r = "snd (onewire_reset sim_io s)"
  let ?w = "onewire_write sim_io 0xF0 ?r"
  from q d have pres: "fst (onewire_reset sim_io s)"
    by (simp add: sim_reset slaves_present_def)
  from q have rq: "\<not> master_low ?r" and rs: "phase (slaves ?r) = Command" "nbits (slaves ?r) = 0"
    by (simp_all add: sim_reset master_low_def slaves_reset_def)
  note weq = sim_write_command [where byte = "0xF0", OF rq rs]
  have wq: "\<not> master_low ?w"
    unfolding weq by (simp add: master_low_def)
  have "slaves ?r = \<lparr>devices = [rom], phase = Command, nbits = 0, shreg = 0, active = [rom]\<rparr>"
    using q d by (simp add: sim_reset slaves_reset_def)
  then have ws: "slaves ?w = \<lparr>devices = [rom], phase = Search, nbits = 0, shreg = 0xF0, active = [rom]\<rparr>"
    unfolding weq by (simp add: slaves_slot_def Let_def)
  let ?v = "search_start st ?w"
  have vq: "\<not> master_low (bus ?v)" and vs: "slaves (bus ?v) =
      \<lparr>devices = [rom], phase = Search, nbits = 0, shreg = 0xF0, active = [rom]\<rparr>"
    using wq ws by (simp_all add: search_start_def)
  have steps: "\<exists>v'. search_steps sim_io n ?v = (True, v') \<and>
      (0 < n \<longrightarrow> bitValue v' = (if bit rom (n - 1) then 1 else 0)) \<and>
      localLastZeroBranch v' = - 1" if "n \<le> 64" for n
    using sim_search_steps_single [OF vq vs that] by (auto simp: search_start_def)
  from steps [of 64] obtain v where v: "search_steps sim_io 64 ?v = (True, v)"
    and vl: "localLastZeroBranch v = - 1" by auto
  from search_steps_address [OF v] len
  have a: "\<forall>p<64. bit (address (state v) ! (p div 8)) (p mod 8) =
      (bitValue (snd (search_steps sim_io (Suc p) ?v)) \<noteq> 0)"
    and lz: "lastZeroBranch (state v) = lastZeroBranch st"
    by (simp_all add: search_start_def)
  have b: "bitValue (snd (search_steps sim_io (Suc p) ?v)) \<noteq> 0 \<longleftrightarrow> bit rom p" if "p < 64" for p
    using steps [of "Suc p"] that by (auto simp del: search_steps.simps split: if_splits)
  have "search_next sim_io st ?w = (True, (state v)\<lparr>search_done := True\<rparr>, bus v)"
    using v vl by (simp add: search_next_def search_loop_steps search_start_def)
  with pres nd have "onewire_search sim_io st s = (True, (state v)\<lparr>search_done := True\<rparr>, bus v)"
    by (simp add: onewire_search_def search_devices_def split_beta)
  with a b lz show ?thesis by simp
qed


subsection \<open>The search on the bus with four devices\<close>

text \<open>
  Every call is evaluated by rewriting: the reset and the command byte bring the bus
  to the start of a pass, and the pass runs through its 64 positions.
\<close>

lemmas sim_eval = numeral_2_eq_2 [symmetric] sim_configure_input_hiz sim_output_set_high
  sim_configure_output sim_read_bit sim_write_bit sim_reset sim_write_command master_low_def
  slaves_pull_def slaves_slot_def slaves_reset_def slaves_present_def sim_bus_def
lemmas search_eval = search_reading_def search_conflict_def search_write_def search_bit_def
  search_next_def kZero_def kOne_def kConflict_def
  search_init_def search_start_def search_loop.simps Let_def
lemmas bug_defs = bug_devices_def bug_bus_def bug_state1_def bug_state2_def bug_state3_def

lemma search_steps_numeral:
  "search_steps io (numeral k) v =
     (case search_steps io (pred_numeral k) v of
        (ok, v') \<Rightarrow> if ok then search_bit io (pred_numeral k) v' else (False, v'))"
  by (simp add: numeral_eq_Suc)

lemma search_calls_numeral:
  "search_calls io (numeral k) st b =
     (case onewire_search io st b of
        (ok, st', b') \<Rightarrow> (ok, st') # search_calls io (pred_numeral k) st' b')"
  by (simp add: numeral_eq_Suc)

lemma onewire_search_next:
  "\<not> search_done st \<Longrightarrow> fst (onewire_reset io b) \<Longrightarrow>
   onewire_search io st b = search_next io st (onewire_write io 0xF0 (snd (onewire_reset io b)))"
  by (simp add: onewire_search_def search_devices_def split_beta)

lemma bug_start1:
  "fst (onewire_reset sim_io (sim_bus bug_devices))"
  "onewire_write sim_io 0xF0 (snd (onewire_reset sim_io (sim_bus bug_devices))) =
     bug_bus 1430 Search bug_devices"
  by (simp_all add: sim_eval bug_defs)

lemma bug_start2:
  "fst (onewire_reset sim_io (bug_bus 13078 Idle [0x6100000000000026]))"
  "onewire_write sim_io 0xF0 (snd (onewire_reset sim_io (bug_bus 13078 Idle [0x6100000000000026]))) =
     bug_bus 14568 Search bug_devices"
  by (simp_all add: sim_eval bug_defs)

lemma bug_start3:
  "fst (onewire_reset sim_io (bug_bus 26216 Idle [0x0F00000000000226]))"
  "onewire_write sim_io 0xF0 (snd (onewire_reset sim_io (bug_bus 26216 Idle [0x0F00000000000226]))) =
     bug_bus 27706 Search bug_devices"
  by (simp_all add: sim_eval bug_defs)

lemma bug_next1:
  "search_next sim_io search_init (bug_bus 1430 Search bug_devices) =
     (True, bug_state1, bug_bus 13078 Idle [0x6100000000000026])"
  by (simp add: sim_eval search_eval bug_defs cong: let_weak_cong prod.case_cong_weak)

lemma bug_next2:
  "search_next sim_io bug_state1 (bug_bus 14568 Search bug_devices) =
     (True, bug_state2, bug_bus 26216 Idle [0x0F00000000000226])"
  by (simp add: sim_eval search_eval bug_defs cong: let_weak_cong prod.case_cong_weak)

lemma bug_next3:
  "search_next sim_io bug_state2 (bug_bus 27706 Search bug_devices) =
     (True, bug_state3, bug_bus 39354 Idle [0xD300000000000626])"
  by (simp add: sim_eval search_eval bug_defs cong: let_weak_cong prod.case_cong_weak)

lemma bug_call1:
  "onewire_search sim_io search_init (sim_bus bug_devices) =
     (True, bug_state1, bug_bus 13078 Idle [0x6100000000000026])"
  using bug_start1 bug_next1 by (simp add: onewire_search_next search_init_def)

lemma bug_call2:
  "onewire_search sim_io bug_state1 (bug_bus 13078 Idle [0x6100000000000026]) =
     (True, bug_state2, bug_bus 26216 Idle [0x0F00000000000226])"
  using bug_start2 bug_next2 by (simp add: onewire_search_next bug_state1_def)

lemma bug_call3:
  "onewire_search sim_io bug_state2 (bug_bus 26216 Idle [0x0F00000000000226]) =
     (True, bug_state3, bug_bus 39354 Idle [0xD300000000000626])"
  using bug_start3 bug_next3 by (simp add: onewire_search_next bug_state2_def)

lemma bug_call4:
  "onewire_search sim_io bug_state3 b = (False, bug_state3, b)"
  by (simp add: onewire_search_def search_devices_def bug_state3_def)

lemma bug_step10:
  "fst (search_reading sim_io (bus (snd (search_steps sim_io 10
      (search_start bug_state2 (bug_bus 27706 Search bug_devices)))))) = kConflict"
  "bitValue (snd (search_steps sim_io 11
      (search_start bug_state2 (bug_bus 27706 Search bug_devices)))) = 4"
  "bit (address (state (snd (search_steps sim_io 10
      (search_start bug_state2 (bug_bus 27706 Search bug_devices))))) ! 1) 2"
  by (simp_all add: sim_eval search_eval bug_defs search_steps_numeral
      cong: let_weak_cong prod.case_cong_weak)


text \<open>
  What the code does at an ambiguous bit: it takes one at the pivot, below the pivot
  whatever the address buffer holds at this moment under the mask of the position,
  and zero above; a zero is recorded.
\<close>

lemma search_bit_conflict_value:
  assumes "fst (search_reading io (bus v)) = kConflict"
  shows "fst (search_bit io p v) \<and>
         bitValue (snd (search_bit io p v)) =
           (if int p = lastZeroBranch (state v) then 1
            else if int p < lastZeroBranch (state v)
            then address (state v) ! (p div 8) AND push_bit (p mod 8) 1
            else 0) \<and>
         localLastZeroBranch (snd (search_bit io p v)) =
           (if bitValue (snd (search_bit io p v)) = 0 then int p else localLastZeroBranch v)"
proof -
  obtain reading b where r: "search_reading io (bus v) = (reading, b)"
    by (cases "search_reading io (bus v)")
  with assms show ?thesis
    by (simp add: search_bit_def search_write_fields search_conflict_fields
        kZero_def kOne_def kConflict_def del: push_bit_of_1)
qed

text \<open>
  C1. On the bus with the four devices \<open>bug_devices\<close>, five successive calls of
  \<^verbatim>\<open>onewire_search\<close> from the fresh state return true three times only: they yield
  the codes with serial bytes 0, 2 and 6, the third call sets the done flag, and the
  device with serial byte 10 (code \<open>26 0A 00 00 00 00 00 AE\<close>) is never yielded.
\<close>

theorem onewire_search_loses_device:
  "map (\<lambda>(ok, st). (ok, search_done st, address st))
       (search_calls sim_io 5 search_init (sim_bus bug_devices)) =
     [(True, False, [0x26, 0, 0, 0, 0, 0, 0, 0x61]),
      (True, False, [0x26, 2, 0, 0, 0, 0, 0, 0x0F]),
      (True, True, [0x26, 6, 0, 0, 0, 0, 0, 0xD3]),
      (False, True, [0x26, 6, 0, 0, 0, 0, 0, 0xD3]),
      (False, True, [0x26, 6, 0, 0, 0, 0, 0, 0xD3])] \<and>
   length bug_devices = 4 \<and> distinct bug_devices"
  by (simp add: search_calls_numeral bug_call1 bug_call2 bug_call3 bug_call4)
     (simp add: bug_defs)

text \<open>
  C2. In the third call on that bus, bit position 10 is ambiguous and lies below the
  pivot \<open>lastZeroBranch = 11\<close>. The address the call before yielded has a zero at
  position 10 (byte 1 is \<open>0x02\<close>), but the pass resolves the bit to one: the
  iteration for position 9 has set bit 2 of byte 1 on the way (it shifts the mask it
  copied, not a one), and the replay reads that bit.
\<close>

theorem search_replay_takes_spurious_bit:
  "fst (search_reading sim_io (bus (snd (search_steps sim_io 10
      (search_start bug_state2 (bug_bus 27706 Search bug_devices)))))) = kConflict \<and>
   int 10 < lastZeroBranch bug_state2 \<and>
   \<not> bit (address bug_state2 ! (10 div 8)) (10 mod 8) \<and>
   bit (address (state (snd (search_steps sim_io 10
      (search_start bug_state2 (bug_bus 27706 Search bug_devices))))) ! (10 div 8)) (10 mod 8) \<and>
   bitValue (snd (search_steps sim_io 11
      (search_start bug_state2 (bug_bus 27706 Search bug_devices)))) = 4"
  using bug_step10 by (simp add: bug_state2_def)

text \<open>
  C3. A pass that completes leaves the flags as follows. If no iteration read a
  conflict and sent a zero, the done flag is set and \<open>lastZeroBranch\<close> is as before;
  otherwise \<open>lastZeroBranch\<close> is the highest position at which that happened and the
  done flag is as before. On a bus with one device, whatever its code, one call
  returns true with the done flag set and the code of the device in the address.
\<close>

theorem search_pass_end:
  "(search_next io st b = (True, st', b') \<longrightarrow>
      (if \<exists>p<64. zero_branch io (search_start st b) p
       then lastZeroBranch st' = int (Max {p. p < 64 \<and> zero_branch io (search_start st b) p}) \<and>
            search_done st' = search_done st
       else search_done st' \<and> lastZeroBranch st' = lastZeroBranch st)) \<and>
   (\<not> master_low s \<and> devices (slaves s) = [rom] \<and> length (address st) = 8 \<and> \<not> search_done st \<longrightarrow>
      (\<exists>st' s'. onewire_search sim_io st s = (True, st', s') \<and> search_done st' \<and>
         (\<forall>p<64. bit (address st' ! (p div 8)) (p mod 8) = bit rom p)))"
proof (intro conjI impI)
  assume a: "search_next io st b = (True, st', b')"
  from a obtain v where v: "search_steps io 64 (search_start st b) = (True, v)"
    and st': "st' = (if localLastZeroBranch v = - 1 then (state v)\<lparr>search_done := True\<rparr>
               else (state v)\<lparr>lastZeroBranch := localLastZeroBranch v\<rparr>)"
    by (rule search_next_ok)
  let ?Z = "zero_branch io (search_start st b)"
  have l: "localLastZeroBranch v = (if \<exists>p<64. ?Z p then int (Max {p. p < 64 \<and> ?Z p}) else - 1)"
    using search_steps_local [OF v] by (simp add: search_start_def)
  have f: "lastZeroBranch (state v) = lastZeroBranch st" "search_done (state v) = search_done st"
    using search_steps_fields [OF v] by (simp_all add: search_start_def)
  show "if \<exists>p<64. ?Z p
        then lastZeroBranch st' = int (Max {p. p < 64 \<and> ?Z p}) \<and> search_done st' = search_done st
        else search_done st' \<and> lastZeroBranch st' = lastZeroBranch st"
    using l f st' by auto
next
  assume "\<not> master_low s \<and> devices (slaves s) = [rom] \<and> length (address st) = 8 \<and> \<not> search_done st"
  then show "\<exists>st' s'. onewire_search sim_io st s = (True, st', s') \<and> search_done st' \<and>
         (\<forall>p<64. bit (address st' ! (p div 8)) (p mod 8) = bit rom p)"
    using sim_search_single [of s rom st] by blast
qed

theorem search_pass_end_witness:
  "search_next sim_io search_init (bug_bus 1430 Search bug_devices) =
     (True, bug_state1, bug_bus 13078 Idle [0x6100000000000026]) \<and>
   (\<exists>p<64. zero_branch sim_io (search_start search_init (bug_bus 1430 Search bug_devices)) p) \<and>
   int (Max {p. p < 64 \<and>
      zero_branch sim_io (search_start search_init (bug_bus 1430 Search bug_devices)) p}) = 9 \<and>
   \<not> master_low (sim_bus [0x2A]) \<and> devices (slaves (sim_bus [0x2A])) = [0x2A] \<and>
   length (address search_init) = 8 \<and> \<not> search_done search_init \<and>
   (\<exists>st' s'. onewire_search sim_io search_init (sim_bus [0x2A]) = (True, st', s') \<and>
      search_done st' \<and>
      (\<forall>p<64. bit (address st' ! (p div 8)) (p mod 8) = bit (0x2A :: 64 word) p))"
proof -
  have h: "\<not> master_low (sim_bus [0x2A]) \<and> devices (slaves (sim_bus [0x2A])) = [0x2A] \<and>
      length (address search_init) = 8 \<and> \<not> search_done search_init"
    by (simp add: sim_bus_def master_low_def search_init_def)
  have d: "lastZeroBranch bug_state1 = 9" "\<not> search_done bug_state1"
    "lastZeroBranch search_init = - 1"
    by (simp_all add: bug_state1_def search_init_def)
  from search_pass_end [where io = sim_io and st = search_init
      and b = "bug_bus 1430 Search bug_devices" and st' = bug_state1
      and b' = "bug_bus 13078 Idle [0x6100000000000026]" and s = "sim_bus [0x2A]" and rom = "0x2A"]
    bug_next1 h d
  show ?thesis by (auto split: if_splits)
qed

text \<open>
  C4. After a pass that returns true, every bit of the address is the bit the pass
  chose at that position: bit \<open>p mod 8\<close> of byte \<open>p div 8\<close> is set exactly when
  \<^verbatim>\<open>bitValue\<close> was not zero at the end of iteration \<open>p\<close>, which is when the pass wrote
  a one onto the bus.
\<close>

theorem search_pass_address_bits:
  assumes "search_next io st b = (True, st', b')" and "length (address st) = 8" and "p < 64"
  shows "bit (address st' ! (p div 8)) (p mod 8) =
           (bitValue (snd (search_steps io (Suc p) (search_start st b))) \<noteq> 0)"
proof -
  from assms(1) obtain v where v: "search_steps io 64 (search_start st b) = (True, v)"
    and a: "address st' = address (state v)"
    by (rule search_next_ok)
  from search_steps_address [OF v] assms(2,3) a show ?thesis
    by (simp add: search_start_def del: search_steps.simps)
qed

theorem search_pass_address_bits_witness:
  "search_next sim_io bug_state2 (bug_bus 27706 Search bug_devices) =
     (True, bug_state3, bug_bus 39354 Idle [0xD300000000000626]) \<and>
   length (address bug_state2) = 8 \<and> (10::nat) < 64 \<and>
   bit (address bug_state3 ! (10 div 8)) (10 mod 8) \<and>
   bitValue (snd (search_steps sim_io (Suc 10)
      (search_start bug_state2 (bug_bus 27706 Search bug_devices)))) \<noteq> 0"
proof -
  have l: "length (address bug_state2) = 8" by (simp add: bug_state2_def)
  from search_pass_address_bits [OF bug_next3 l, of 10] bug_next3 l
  show ?thesis by (simp add: bug_state3_def del: search_steps.simps)
qed


subsection \<open>No presence pulse\<close>

lemma search_devices_no_presence:
  "\<not> search_done st \<Longrightarrow> \<not> fst (onewire_reset io b) \<Longrightarrow>
   search_devices command io st b = (False, st, snd (onewire_reset io b))"
  by (simp add: search_devices_def split_beta)

lemma ds2438_search_no_presence:
  assumes "\<not> fst (onewire_reset io b)"
  shows "ds2438_search io b buf len = Some (0, buf, snd (onewire_reset io b))"
proof -
  have "onewire_search io search_init b = (False, search_init, snd (onewire_reset io b))"
    using assms by (simp add: onewire_search_def search_devices_no_presence search_init_def)
  then have "ds2438_search_loop io len 0 buf search_init b =
      Some (0, buf, search_init, snd (onewire_reset io b))"
    by (subst ds2438_search_loop.simps) simp
  then show ?thesis by (simp add: ds2438_search_def)
qed

lemma ds2438_measure_no_presence:
  assumes "\<not> fst (onewire_reset io b)"
  shows "ds2438_measure io fl b output = Some (False, output, snd (onewire_reset io b))"
  using assms by (simp add: ds2438_measure_def measure_vad_def split_beta)

text \<open>
  C6. When the reset sees no presence pulse, the search step reports failure and
  leaves the search state as it was, \<^verbatim>\<open>ds2438_search\<close> reports zero devices and an
  unchanged buffer, \<^verbatim>\<open>ds2438_measure\<close> returns false with its output untouched, and
  in all three the bus is left exactly as that one reset left it: nothing was written
  onto it.
\<close>

theorem no_presence_no_command:
  assumes "\<not> fst (onewire_reset io b)" and "\<not> search_done st"
  shows "search_devices command io st b = (False, st, snd (onewire_reset io b)) \<and>
         ds2438_search io b buf len = Some (0, buf, snd (onewire_reset io b)) \<and>
         ds2438_measure io fl b output = Some (False, output, snd (onewire_reset io b))"
  using assms
  by (simp add: search_devices_no_presence ds2438_search_no_presence ds2438_measure_no_presence)

lemma sim_reset_no_devices:
  "onewire_reset sim_io (sim_bus []) =
     (False, \<lparr>drive = False, latch = False, clock = 1010, fell = 0, pull_from = 510,
        pull_until = 510,
        slaves = \<lparr>devices = [], phase = Command, nbits = 0, shreg = 0, active = []\<rparr>\<rparr>)"
  by (simp add: sim_reset master_low_def slaves_present_def slaves_reset_def sim_bus_def)

theorem no_presence_no_command_witness:
  "\<not> fst (onewire_reset sim_io (sim_bus [])) \<and> \<not> search_done search_init \<and>
   search_devices 0xF0 sim_io search_init (sim_bus []) =
     (False, search_init, snd (onewire_reset sim_io (sim_bus []))) \<and>
   ds2438_search sim_io (sim_bus []) [0xEE, 0xEE, 0xEE, 0xEE, 0xEE, 0xEE, 0xEE, 0xEE] 8 =
     Some (0, [0xEE, 0xEE, 0xEE, 0xEE, 0xEE, 0xEE, 0xEE, 0xEE], snd (onewire_reset sim_io (sim_bus []))) \<and>
   ds2438_measure sim_io exact_flt (sim_bus []) ''unchanged'' =
     Some (False, ''unchanged'', snd (onewire_reset sim_io (sim_bus []))) \<and>
   phase (slaves (snd (onewire_reset sim_io (sim_bus [])))) = Command \<and>
   nbits (slaves (snd (onewire_reset sim_io (sim_bus [])))) = 0"
proof -
  have h: "\<not> fst (onewire_reset sim_io (sim_bus []))" "\<not> search_done search_init"
    by (simp_all add: sim_reset_no_devices search_init_def)
  from no_presence_no_command [OF h, of "0xF0" "[0xEE, 0xEE, 0xEE, 0xEE, 0xEE, 0xEE, 0xEE, 0xEE]"
      8 exact_flt "''unchanged''"] h
  show ?thesis by (simp add: sim_reset_no_devices)
qed

subsection \<open>The scripted bus\<close>

lemma script_io_simps:
  "gpio_output_set_high script_io s = s" "gpio_output_set_low script_io s = s"
  "gpio_configure_output script_io s = s" "gpio_configure_input_hiz script_io s = s"
  "gpio_input_read script_io s = script_read s"
  "delay_us script_io n s = s" "delay_ms script_io n s = s"
  by (simp_all add: script_io_def)

lemma script_reset:
  "onewire_reset script_io [] = (False, [])"
  "onewire_reset script_io (x # xs) = (x = 0, xs)"
  by (simp_all add: onewire_reset_def script_io_simps script_read_def)

lemma script_write_bit: "onewire_write_bit script_io v s = s"
  by (simp add: onewire_write_bit_def script_io_simps)

lemma script_write: "onewire_write script_io byte s = s"
  by (simp add: onewire_write_def onewire_write_loop_8 script_write_bit script_io_simps)

lemma script_read_bit:
  "onewire_read_bit script_io [] = (1, [])"
  "onewire_read_bit script_io (x # xs) = (if x \<noteq> 0 then 1 else 0, xs)"
  by (simp_all add: onewire_read_bit_def script_io_simps script_read_def)

lemma script_read_byte:
  "onewire_read script_io (x0 # x1 # x2 # x3 # x4 # x5 # x6 # x7 # s) =
     ((if x0 \<noteq> 0 then 1 else 0) OR (if x1 \<noteq> 0 then 2 else 0) OR (if x2 \<noteq> 0 then 4 else 0) OR
      (if x3 \<noteq> 0 then 8 else 0) OR (if x4 \<noteq> 0 then 16 else 0) OR (if x5 \<noteq> 0 then 32 else 0) OR
      (if x6 \<noteq> 0 then 64 else 0) OR (if x7 \<noteq> 0 then 128 else 0), s)"
  by (simp add: onewire_read_def script_io_simps onewire_read_loop.simps script_read_bit
      or.assoc)

lemma onewire_read_bytes_numeral:
  "onewire_read_bytes io (numeral k) b =
     (let (x, b) = onewire_read io b;
          (xs, b) = onewire_read_bytes io (pred_numeral k) b
      in (x # xs, b))"
  by (simp add: numeral_eq_Suc)

lemma script_frames:
  "onewire_read_bytes script_io 9 (levels_vad @ s) = (frame_vad, s)"
  "onewire_read_bytes script_io 9 (levels_vdd @ s) = (frame_vdd, s)"
  "onewire_read_bytes script_io 9 (levels_bad @ s) = (frame_vad[8 := 0xD6], s)"
  by (simp_all add: onewire_read_bytes_numeral script_read_byte levels_vad_def levels_vdd_def
      levels_bad_def frame_vad_def frame_vdd_def)

lemma frames_check:
  "crc_checks frame_vad 8" "crc_checks frame_vdd 8" "\<not> crc_checks (frame_vad[8 := 0xD6]) 8"
  by (simp_all add: crc_checks_def frame_vad_def frame_vdd_def crc8_eval crc_shift_def)

subsection \<open>Enumeration\<close>



































subsection \<open>Reading a page\<close>

lemma onewire_read_bytes_length: "length (fst (onewire_read_bytes io n b)) = n"
  by (induction n arbitrary: b) (simp_all add: split_beta)

lemma read_slave_loop_bytes:
  "i \<le> 9 \<Longrightarrow> length buffer = 9 \<Longrightarrow>
   read_slave_loop io i buffer b =
     (take i buffer @ fst (onewire_read_bytes io (9 - i) b), snd (onewire_read_bytes io (9 - i) b))"
proof (induction io i buffer b rule: read_slave_loop.induct)
  case (1 io i buffer b)
  show ?case
  proof (cases "i < 9")
    case False
    with "1.prems" have "i = 9" by simp
    with "1.prems" show ?thesis by (simp add: read_slave_loop.simps [of io 9])
  next
    case True
    obtain x b' where r: "onewire_read io b = (x, b')" by (cases "onewire_read io b")
    from True have s: "9 - i = Suc (8 - i)" by simp
    have step: "onewire_read_bytes io (9 - i) b =
        (x # fst (onewire_read_bytes io (8 - i) b'), snd (onewire_read_bytes io (8 - i) b'))"
      unfolding s using r by (simp add: split_beta)
    from True "1.prems" have t: "take (Suc i) (buffer[i := x]) = take i buffer @ [x]"
      by (simp add: take_Suc_conv_app_nth)
    from "1.IH" [OF True r [symmetric] refl] True "1.prems"
    have "read_slave_loop io (Suc i) (buffer[i := x]) b' =
        (take (Suc i) (buffer[i := x]) @ fst (onewire_read_bytes io (8 - i) b'),
         snd (onewire_read_bytes io (8 - i) b'))"
      by simp
    with True r t step show ?thesis
      by (subst read_slave_loop.simps) simp
  qed
qed

lemma read_slave_loop_9:
  "length buffer = 9 \<Longrightarrow> read_slave_loop io 0 buffer b = onewire_read_bytes io 9 b"
  by (simp add: read_slave_loop_bytes)

lemma status_distinct:
  "kDS2438_DeviceNotFound \<noteq> 0" "kDS2438_CrcCheckFailed \<noteq> 0"
  "kDS2438_DeviceNotFound \<noteq> kDS2438_CrcCheckFailed"
  by (simp_all add: kDS2438_DeviceNotFound_def kDS2438_CrcCheckFailed_def)

lemma crc_checks_frame:
  "length frame = 9 \<Longrightarrow> crc_checks frame 8 \<longleftrightarrow> crc8 frame 8 = Some (frame ! kScratchPad_CRC)"
  by (simp add: crc_checks_def kScratchPad_CRC_def)

text \<open>
  C7. \<^verbatim>\<open>ds2438_read_slave\<close> returns \<open>kDS2438_DeviceNotFound\<close> exactly when the first
  reset, or else the second, sees no presence pulse; it then returns the buffer
  unchanged and the bus as that reset left it, before any read slot. Otherwise it
  reads nine bytes and returns \<open>kDS2438_CrcCheckFailed\<close> exactly when byte 8 is not the
  CRC-8 of the first eight, and 0 exactly when it is.
\<close>

theorem ds2438_read_slave_status:
  assumes "length buffer = 9"
  shows "let r = ds2438_read_slave io page buffer b;
             p1 = fst (onewire_reset io b);
             b1 = snd (onewire_reset io b);
             b2 = onewire_write io page (onewire_write io kRecallPage (onewire_write io 0xCC b1));
             p2 = fst (onewire_reset io b2);
             b3 = snd (onewire_reset io b2);
             b4 = onewire_write io page (onewire_write io kReadScatchPad (onewire_write io 0xCC b3));
             frame = fst (onewire_read_bytes io 9 b4);
             b5 = snd (onewire_read_bytes io 9 b4)
         in (fst r = kDS2438_DeviceNotFound \<longleftrightarrow> \<not> p1 \<or> \<not> p2) \<and>
            (\<not> p1 \<longrightarrow> r = (kDS2438_DeviceNotFound, buffer, b1)) \<and>
            (p1 \<and> \<not> p2 \<longrightarrow> r = (kDS2438_DeviceNotFound, buffer, b3)) \<and>
            (p1 \<and> p2 \<longrightarrow> snd r = (frame, b5) \<and> length frame = 9 \<and>
               (fst r = kDS2438_CrcCheckFailed \<longleftrightarrow> \<not> crc_checks frame 8) \<and>
               (fst r = 0 \<longleftrightarrow> crc_checks frame 8))"
proof -
  have len: "length (fst (onewire_read_bytes io 9 bb)) = 9" for bb
    by (rule onewire_read_bytes_length)
  show ?thesis
    using assms status_distinct
    by (simp add: ds2438_read_slave_def Let_def split_beta read_slave_loop_9
        crc_checks_frame [OF len] len)
qed

theorem ds2438_read_slave_status_witness:
  "length (replicate 9 (0::u8)) = 9 \<and>
   ds2438_read_slave script_io 0 (replicate 9 0) [] =
     (kDS2438_DeviceNotFound, replicate 9 0, []) \<and>
   ds2438_read_slave script_io 0 (replicate 9 0) [0] =
     (kDS2438_DeviceNotFound, replicate 9 0, []) \<and>
   ds2438_read_slave script_io 0 (replicate 9 0) (0 # 0 # levels_vad) = (0, frame_vad, []) \<and>
   ds2438_read_slave script_io 0 (replicate 9 0) (0 # 0 # levels_bad) =
     (kDS2438_CrcCheckFailed, frame_vad[8 := 0xD6], [])"
proof -
  have l: "length (replicate 9 (0::u8)) = 9" by simp
  note t = ds2438_read_slave_status [OF l, where io = script_io and page = 0]
  have "ds2438_read_slave script_io 0 (replicate 9 0) [] =
      (kDS2438_DeviceNotFound, replicate 9 0, [])"
    using t [of "[]"] by (simp add: Let_def script_reset)
  moreover have "ds2438_read_slave script_io 0 (replicate 9 0) [0] =
      (kDS2438_DeviceNotFound, replicate 9 0, [])"
    using t [of "[0]"] by (simp add: Let_def script_reset script_write)
  moreover have "ds2438_read_slave script_io 0 (replicate 9 0) (0 # 0 # levels_vad) =
      (0, frame_vad, [])"
    using t [of "0 # 0 # levels_vad"] script_frames(1) [of "[]"] frames_check
    by (simp add: Let_def script_reset script_write prod_eq_iff)
  moreover have "ds2438_read_slave script_io 0 (replicate 9 0) (0 # 0 # levels_bad) =
      (kDS2438_CrcCheckFailed, frame_vad[8 := 0xD6], [])"
    using t [of "0 # 0 # levels_bad"] script_frames(3) [of "[]"] frames_check
    by (simp add: Let_def script_reset script_write prod_eq_iff)
  ultimately show ?thesis using l by blast
qed

lemma ds2438_read_slave_ok:
  assumes "ds2438_read_slave io page buffer b = (reading, frame, b')"
    and "reading \<noteq> kDS2438_CrcCheckFailed" and "reading \<noteq> kDS2438_DeviceNotFound"
    and "length buffer = 9"
  shows "reading = 0 \<and> length frame = 9 \<and> crc_checks frame 8"
proof -
  have len: "length fr = 9" if "onewire_read_bytes io 9 bb = (fr, bc)" for bb fr bc
    using onewire_read_bytes_length [of io 9 bb] that by simp
  have chk: "crc_checks fr 8" if "length fr = 9" "crc8 fr 8 = Some (fr ! kScratchPad_CRC)" for fr
    using that by (simp add: crc_checks_frame)
  show ?thesis
    using assms
    by (auto simp add: ds2438_read_slave_def Let_def read_slave_loop_9
        split: if_splits prod.splits dest: len intro: chk)
qed

subsection \<open>The measurement\<close>

lemma read_slave_values:
  "fst (ds2438_read_slave io page buffer b) = 0 \<or>
   fst (ds2438_read_slave io page buffer b) = kDS2438_DeviceNotFound \<or>
   fst (ds2438_read_slave io page buffer b) = kDS2438_CrcCheckFailed"
  by (simp add: ds2438_read_slave_def Let_def split_beta)

lemma read_slave_length:
  "length buffer = 9 \<Longrightarrow> length (fst (snd (ds2438_read_slave io page buffer b))) = 9"
  by (simp add: ds2438_read_slave_def Let_def split_beta read_slave_loop_9
      onewire_read_bytes_length)


text \<open>
  C8. \<^verbatim>\<open>ds2438_measure\<close> through its bus operations, in program order: six resets
  \<open>r1\<close> to \<open>r6\<close> with the command bytes between them, and the two scratchpad reads
  \<open>s1\<close> and \<open>s2\<close>. The first reset without a presence pulse, or the first read that
  returns \<open>kDS2438_DeviceNotFound\<close> or \<open>kDS2438_CrcCheckFailed\<close>, ends the function:
  it returns false, the output is the caller's, unchanged, and the bus is as that
  step left it. When all eight steps succeed the function returns true with the line
  \<open>TH;\<close>, temperature, \<open>;\<close>, humidity, carriage return, line feed in the output
  and the bus as the second read left it, provided the line has fewer than 20
  characters; a longer line does not fit \<^verbatim>\<open>char output[20]\<close> and the function has
  no defined result. So a result that is true carries the line and one that is false
  carries the old output.
\<close>

theorem ds2438_measure_outcome:
  "let r1 = onewire_reset io b;
       r2 = onewire_reset io (delay_ms io 20 (onewire_write io 0x00 (onewire_write io 0x00
              (onewire_write io 0x4E (onewire_write io 0xCC (snd r1))))));
       r3 = onewire_reset io (delay_ms io 20 (onewire_write io kConvertTCommand
              (onewire_write io 0xCC (snd r2))));
       s1 = ds2438_read_slave io 0 (replicate 9 0) (delay_ms io 20
              (onewire_write io kConvertVCommand (onewire_write io 0xCC (snd r3))));
       r4 = onewire_reset io (delay_ms io 20 (snd (snd s1)));
       r5 = onewire_reset io (onewire_write io 0x08 (onewire_write io 0x00
              (onewire_write io 0x4E (onewire_write io 0xCC (snd r4)))));
       r6 = onewire_reset io (delay_ms io 20 (onewire_write io kConvertVCommand
              (onewire_write io 0xCC (snd r5))));
       s2 = ds2438_read_slave io 0 (fst (snd s1)) (snd r6);
       failed1 = (fst s1 = kDS2438_DeviceNotFound \<or> fst s1 = kDS2438_CrcCheckFailed);
       failed2 = (fst s2 = kDS2438_DeviceNotFound \<or> fst s2 = kDS2438_CrcCheckFailed);
       t = temperature fl (fst (snd s2));
       rh = sensor_rh fl (scratch_voltage (fst (snd s1))) (scratch_voltage (fst (snd s2))) t;
       line = ''TH;'' @ flt_fmt fl t @ '';'' @ flt_fmt fl rh @ [CHR 0x0D, CHR 0x0A];
       res = ds2438_measure io fl b output
   in (\<not> fst r1 \<longrightarrow> res = Some (False, output, snd r1)) \<and>
      (fst r1 \<and> \<not> fst r2 \<longrightarrow> res = Some (False, output, snd r2)) \<and>
      (fst r1 \<and> fst r2 \<and> \<not> fst r3 \<longrightarrow> res = Some (False, output, snd r3)) \<and>
      (fst r1 \<and> fst r2 \<and> fst r3 \<and> failed1 \<longrightarrow> res = Some (False, output, snd (snd s1))) \<and>
      (fst r1 \<and> fst r2 \<and> fst r3 \<and> \<not> failed1 \<and> \<not> fst r4 \<longrightarrow>
         res = Some (False, output, snd r4)) \<and>
      (fst r1 \<and> fst r2 \<and> fst r3 \<and> \<not> failed1 \<and> fst r4 \<and> \<not> fst r5 \<longrightarrow>
         res = Some (False, output, snd r5)) \<and>
      (fst r1 \<and> fst r2 \<and> fst r3 \<and> \<not> failed1 \<and> fst r4 \<and> fst r5 \<and> \<not> fst r6 \<longrightarrow>
         res = Some (False, output, snd r6)) \<and>
      (fst r1 \<and> fst r2 \<and> fst r3 \<and> \<not> failed1 \<and> fst r4 \<and> fst r5 \<and> fst r6 \<and> failed2 \<longrightarrow>
         res = Some (False, output, snd (snd s2))) \<and>
      (fst r1 \<and> fst r2 \<and> fst r3 \<and> \<not> failed1 \<and> fst r4 \<and> fst r5 \<and> fst r6 \<and> \<not> failed2 \<longrightarrow>
         fst s1 = 0 \<and> fst s2 = 0 \<and>
         res = (if length line < 20 then Some (True, line, snd (snd s2)) else None)) \<and>
      (\<forall>ok out' b'. res = Some (ok, out', b') \<longrightarrow>
         (\<not> ok \<longrightarrow> out' = output) \<and>
         (ok \<longrightarrow> out' = line \<and> b' = snd (snd s2) \<and>
            fst r1 \<and> fst r2 \<and> fst r3 \<and> fst s1 = 0 \<and> fst r4 \<and> fst r5 \<and> fst r6 \<and> fst s2 = 0))"
  using read_slave_values [of io 0 "replicate 9 0"] read_slave_values [of io 0]
  by (auto simp add: Let_def ds2438_measure_def measure_vad_def measure_vdd_def split_beta
      sprintf_TH_def status_distinct split: if_splits)

subsection \<open>The measurement on the scripted bus\<close>

lemma script_frame_cold:
  "onewire_read_bytes script_io 9 (levels_cold @ s) = (frame_cold, s)"
  "crc_checks frame_cold 8"
  by (simp_all add: onewire_read_bytes_numeral script_read_byte levels_cold_def frame_cold_def
      crc_checks_def crc8_eval crc_shift_def)

lemma frame_lengths:
  "length frame_vad = 9" "length frame_vdd = 9" "length frame_cold = 9"
  by (simp_all add: frame_vad_def frame_vdd_def frame_cold_def)

lemma script_read_slave:
  assumes "length buffer = 9"
  shows "ds2438_read_slave script_io 0 buffer (0 # 0 # levels_vad @ s) = (0, frame_vad, s)"
    and "ds2438_read_slave script_io 0 buffer (0 # 0 # levels_vdd @ s) = (0, frame_vdd, s)"
    and "ds2438_read_slave script_io 0 buffer (0 # 0 # levels_cold @ s) = (0, frame_cold, s)"
    and "ds2438_read_slave script_io 0 buffer (0 # 0 # levels_bad @ s) =
           (kDS2438_CrcCheckFailed, frame_vad[8 := 0xD6], s)"
    and "ds2438_read_slave script_io 0 buffer [] = (kDS2438_DeviceNotFound, buffer, [])"
    and "ds2438_read_slave script_io 0 buffer [0] = (kDS2438_DeviceNotFound, buffer, [])"
  using assms frames_check [unfolded crc_checks_def] script_frame_cold(2) [unfolded crc_checks_def]
  by (simp_all add: ds2438_read_slave_def read_slave_loop_9 script_reset script_write
      script_frames script_frame_cold(1) kScratchPad_CRC_def frame_lengths)

lemma dec3_values:
  "dec3 25.192 = ''25.192''" "dec3 255.192 = ''255.192''" "dec3 (- 0.808) = ''-0.808''"
  by (simp_all add: dec3_def digits.simps digit_char_def Let_def)

lemma script_measure_values:
  "temperature exact_flt frame_vdd = Some 25.192"
  "temperature exact_flt frame_cold = Some 255.192"
  "scratch_voltage frame_vad = 1000" "scratch_voltage frame_vdd = 5000"
  "scratch_voltage frame_cold = 5000"
  by (simp_all add: temperature_def temp_integer_def temp_frac_def scratch_voltage_def
      frame_vad_def frame_vdd_def frame_cold_def kScratchPad_TLSB_def
      kScratchPad_TMSB_def kScratchPad_VLSB_def kScratchPad_VMSB_def exact_flt_def exact_op_def)

lemma script_strings:
  "flt_fmt exact_flt (temperature exact_flt frame_vdd) = ''25.192''"
  "flt_fmt exact_flt (temperature exact_flt frame_cold) = ''255.192''"
  "flt_fmt exact_flt (sensor_rh exact_flt (scratch_voltage frame_vad) (scratch_voltage frame_vdd)
     (temperature exact_flt frame_vdd)) = ''6.450''"
  "flt_fmt exact_flt (sensor_rh exact_flt (scratch_voltage frame_vad) (scratch_voltage frame_cold)
     (temperature exact_flt frame_cold)) = ''12.816''"
  "flt_fmt exact_flt (sensor_rh exact_flt (scratch_voltage frame_cold) (scratch_voltage frame_cold)
     (temperature exact_flt frame_cold)) = ''269.145''"
  unfolding script_measure_values
  by (simp_all add: sensor_rh_def exact_flt_def exact_op_def dec3_def
      digits.simps digit_char_def Let_def)

lemma exact_fmt: "flt_fmt exact_flt (Some r) = dec3 r"
  by (simp add: exact_flt_def)

lemmas script_read_slave_end = script_read_slave(1-4) [where s = "[]", simplified]

lemma script_measure:
  "ds2438_measure script_io exact_flt
     (0 # 0 # 0 # 0 # 0 # levels_vad @ 0 # 0 # 0 # 0 # 0 # levels_vdd) output =
     Some (True, ''TH;25.192;6.450'' @ [CHR 0x0D, CHR 0x0A], [])"
  "ds2438_measure script_io exact_flt
     (0 # 0 # 0 # 0 # 0 # levels_vad @ 0 # 0 # 0 # 0 # 0 # levels_cold) output =
     Some (True, ''TH;255.192;12.816'' @ [CHR 0x0D, CHR 0x0A], [])"
  "ds2438_measure script_io exact_flt
     (0 # 0 # 0 # 0 # 0 # levels_cold @ 0 # 0 # 0 # 0 # 0 # levels_cold) output = None"
  "ds2438_measure script_io exact_flt
     (0 # 0 # 0 # 0 # 0 # levels_vad @ 0 # 0 # 0 # 0 # 0 # levels_bad) output =
     Some (False, output, [])"
  "ds2438_measure script_io exact_flt (0 # 0 # 0 # 0 # 0 # levels_bad) output =
     Some (False, output, [])"
  "ds2438_measure script_io exact_flt (0 # 0 # 0 # 0 # 0 # levels_vad @ [0, 0]) output =
     Some (False, output, [])"
  "ds2438_measure script_io exact_flt [0, 0] output = Some (False, output, [])"
  "ds2438_measure script_io exact_flt [] output = Some (False, output, [])"
  by (simp_all add: ds2438_measure_def measure_vad_def measure_vdd_def script_reset script_write
      script_io_simps script_read_slave script_read_slave_end frame_lengths status_distinct script_strings
      sprintf_TH_def Let_def)

theorem ds2438_measure_outcome_witness:
  "ds2438_measure script_io exact_flt
     (0 # 0 # 0 # 0 # 0 # levels_vad @ 0 # 0 # 0 # 0 # 0 # levels_vdd) ''old'' =
     Some (True, ''TH;25.192;6.450'' @ [CHR 0x0D, CHR 0x0A], []) \<and>
   ds2438_measure script_io exact_flt
     (0 # 0 # 0 # 0 # 0 # levels_vad @ 0 # 0 # 0 # 0 # 0 # levels_bad) ''old'' =
     Some (False, ''old'', []) \<and>
   ds2438_measure script_io exact_flt (0 # 0 # 0 # 0 # 0 # levels_bad) ''old'' =
     Some (False, ''old'', []) \<and>
   ds2438_measure script_io exact_flt (0 # 0 # 0 # 0 # 0 # levels_vad @ [0, 0]) ''old'' =
     Some (False, ''old'', []) \<and>
   ds2438_measure script_io exact_flt [0, 0] ''old'' = Some (False, ''old'', []) \<and>
   ds2438_measure script_io exact_flt [] ''old'' = Some (False, ''old'', []) \<and>
   ds2438_measure script_io exact_flt
     (0 # 0 # 0 # 0 # 0 # levels_cold @ 0 # 0 # 0 # 0 # 0 # levels_cold) ''old'' = None"
proof -
  note e = script_reset script_write script_io_simps script_read_slave
    script_read_slave_end frame_lengths status_distinct script_strings
  note t = ds2438_measure_outcome [where io = script_io and fl = exact_flt, unfolded Let_def]
  note t1 = t [THEN conjunct1]
  note t3 = t [THEN conjunct2, THEN conjunct2, THEN conjunct1]
  note t4 = t [THEN conjunct2, THEN conjunct2, THEN conjunct2, THEN conjunct1]
  note t7 = t [THEN conjunct2, THEN conjunct2, THEN conjunct2, THEN conjunct2, THEN conjunct2,
      THEN conjunct2, THEN conjunct1]
  note t8 = t [THEN conjunct2, THEN conjunct2, THEN conjunct2, THEN conjunct2, THEN conjunct2,
      THEN conjunct2, THEN conjunct2, THEN conjunct1]
  note t9 = t [THEN conjunct2, THEN conjunct2, THEN conjunct2, THEN conjunct2, THEN conjunct2,
      THEN conjunct2, THEN conjunct2, THEN conjunct2, THEN conjunct1]
  have "ds2438_measure script_io exact_flt
     (0 # 0 # 0 # 0 # 0 # levels_vad @ 0 # 0 # 0 # 0 # 0 # levels_vdd) ''old'' =
     Some (True, ''TH;25.192;6.450'' @ [CHR 0x0D, CHR 0x0A], [])"
    using t9 [of "0 # 0 # 0 # 0 # 0 # levels_vad @ 0 # 0 # 0 # 0 # 0 # levels_vdd" "''old''"]
    by (simp add: e)
  moreover have "ds2438_measure script_io exact_flt
     (0 # 0 # 0 # 0 # 0 # levels_vad @ 0 # 0 # 0 # 0 # 0 # levels_bad) ''old'' =
     Some (False, ''old'', [])"
    using t8 [of "0 # 0 # 0 # 0 # 0 # levels_vad @ 0 # 0 # 0 # 0 # 0 # levels_bad" "''old''"]
    by (simp add: e)
  moreover have "ds2438_measure script_io exact_flt (0 # 0 # 0 # 0 # 0 # levels_bad) ''old'' =
     Some (False, ''old'', [])"
    using t4 [of "0 # 0 # 0 # 0 # 0 # levels_bad" "''old''"] by (simp add: e)
  moreover have "ds2438_measure script_io exact_flt (0 # 0 # 0 # 0 # 0 # levels_vad @ [0, 0]) ''old'' =
     Some (False, ''old'', [])"
    using t7 [of "0 # 0 # 0 # 0 # 0 # levels_vad @ [0, 0]" "''old''"] by (simp add: e)
  moreover have "ds2438_measure script_io exact_flt [0, 0] ''old'' = Some (False, ''old'', [])"
    using t3 [of "[0, 0]" "''old''"] by (simp add: e)
  moreover have "ds2438_measure script_io exact_flt [] ''old'' = Some (False, ''old'', [])"
    using t1 [of "[]" "''old''"] by (simp add: e)
  moreover have "ds2438_measure script_io exact_flt
     (0 # 0 # 0 # 0 # 0 # levels_cold @ 0 # 0 # 0 # 0 # 0 # levels_cold) ''old'' = None"
    using t9 [of "0 # 0 # 0 # 0 # 0 # levels_cold @ 0 # 0 # 0 # 0 # 0 # levels_cold" "''old''"]
    by (simp add: e)
  ultimately show ?thesis by blast
qed

subsection \<open>The temperature\<close>

lemma temp_frac_unat: "unat (temp_frac buffer) = unat (drop_bit 3 (buffer ! kScratchPad_TLSB)) * 32"
proof -
  let ?x = "drop_bit 3 (buffer ! kScratchPad_TLSB)"
  have "unat ?x < 32"
    using unsigned_less [of "buffer ! kScratchPad_TLSB", where ?'a = nat]
    by (simp add: unat_drop_bit_eq drop_bit_eq_div unat_div)
  then have "unat ?x * 32 < 65536" by simp
  moreover have "unat (ucast ?x :: u16) = unat ?x"
    by (simp add: unsigned_ucast_eq take_bit_nat_eq_self less_trans [OF unsigned_less])
  ultimately show ?thesis
    by (simp add: temp_frac_def unat_word_ariths)
qed

lemma temperature_bytes:
  "temperature fl frame =
     flt_add fl (flt_of_int fl (uint (frame ! 2)))
       (flt_div fl (flt_of_int fl (uint (drop_bit 3 (frame ! 1)) * 32)) (flt_lit fl 1000))"
  "0 \<le> uint (frame ! 2)" "uint (frame ! 2) < 256" "uint (drop_bit 3 (frame ! 1)) < 32"
proof -
  have "uint (temp_frac frame) = uint (drop_bit 3 (frame ! 1)) * 32"
    using arg_cong [OF temp_frac_unat [of frame], of int]
    by (simp add: kScratchPad_TLSB_def)
  then show "temperature fl frame =
     flt_add fl (flt_of_int fl (uint (frame ! 2)))
       (flt_div fl (flt_of_int fl (uint (drop_bit 3 (frame ! 1)) * 32)) (flt_lit fl 1000))"
    by (simp add: temperature_def temp_integer_def kScratchPad_TMSB_def)
  show "0 \<le> uint (frame ! 2)" by simp
  show "uint (frame ! 2) < 256"
    using unsigned_less [of "frame ! 2", where ?'a = int] by simp
  have "unat (drop_bit 3 (frame ! 1)) < 32"
    using unsigned_less [of "frame ! 1", where ?'a = nat]
    by (simp add: unat_drop_bit_eq drop_bit_eq_div unat_div)
  then have "int (unat (drop_bit 3 (frame ! 1))) < int 32"
    by (simp only: of_nat_less_iff)
  then show "uint (drop_bit 3 (frame ! 1)) < 32"
    by (simp only: of_nat_unat of_nat_numeral)
qed

lemma read_slave_frame:
  assumes "length buffer = 9"
    and "fst (ds2438_read_slave io page buffer b) = 0"
  shows "fst (snd (ds2438_read_slave io page buffer b)) =
           fst (onewire_read_bytes io 9
             (onewire_write io page (onewire_write io kReadScatchPad (onewire_write io 0xCC
               (snd (onewire_reset io
                 (onewire_write io page (onewire_write io kRecallPage (onewire_write io 0xCC
                   (snd (onewire_reset io b)))))))))))"
    and "crc_checks (fst (snd (ds2438_read_slave io page buffer b))) 8"
proof -
  define b2 where "b2 = onewire_write io page (onewire_write io kRecallPage
    (onewire_write io 0xCC (snd (onewire_reset io b))))"
  define b4 where "b4 = onewire_write io page (onewire_write io kReadScatchPad
    (onewire_write io 0xCC (snd (onewire_reset io b2))))"
  have u: "ds2438_read_slave io page buffer b =
      (if \<not> fst (onewire_reset io b) then (kDS2438_DeviceNotFound, buffer, snd (onewire_reset io b))
       else if \<not> fst (onewire_reset io b2)
       then (kDS2438_DeviceNotFound, buffer, snd (onewire_reset io b2))
       else if crc8 (fst (onewire_read_bytes io 9 b4)) 8 \<noteq>
                 Some (fst (onewire_read_bytes io 9 b4) ! kScratchPad_CRC)
       then (kDS2438_CrcCheckFailed, onewire_read_bytes io 9 b4)
       else (0, onewire_read_bytes io 9 b4))"
    using assms(1)
    by (simp add: ds2438_read_slave_def Let_def split_beta read_slave_loop_9 b2_def b4_def)
  have p1: "fst (onewire_reset io b)"
    using assms(2) status_distinct by (auto simp: u split: if_splits)
  have p2: "fst (onewire_reset io b2)"
    using assms(2) status_distinct p1 by (auto simp: u split: if_splits)
  have c: "crc8 (fst (onewire_read_bytes io 9 b4)) 8 =
      Some (fst (onewire_read_bytes io 9 b4) ! kScratchPad_CRC)"
    using assms(2) status_distinct p1 p2 by (auto simp: u split: if_splits)
  from p1 p2 c have r: "ds2438_read_slave io page buffer b = (0, onewire_read_bytes io 9 b4)"
    by (simp add: u)
  then show "fst (snd (ds2438_read_slave io page buffer b)) =
           fst (onewire_read_bytes io 9
             (onewire_write io page (onewire_write io kReadScatchPad (onewire_write io 0xCC
               (snd (onewire_reset io
                 (onewire_write io page (onewire_write io kRecallPage (onewire_write io 0xCC
                   (snd (onewire_reset io b)))))))))))"
    by (simp add: b2_def b4_def)
  from r c show "crc_checks (fst (snd (ds2438_read_slave io page buffer b))) 8"
    by (simp add: crc_checks_frame onewire_read_bytes_length)
qed

lemma ds2438_measure_true:
  assumes m: "ds2438_measure io fl b output = Some (True, out', b')"
    and r1: "r1 = onewire_reset io b"
    and r2: "r2 = onewire_reset io (delay_ms io 20 (onewire_write io 0x00 (onewire_write io 0x00
              (onewire_write io 0x4E (onewire_write io 0xCC (snd r1))))))"
    and r3: "r3 = onewire_reset io (delay_ms io 20 (onewire_write io kConvertTCommand
              (onewire_write io 0xCC (snd r2))))"
    and s1: "s1 = ds2438_read_slave io 0 (replicate 9 0) (delay_ms io 20
              (onewire_write io kConvertVCommand (onewire_write io 0xCC (snd r3))))"
    and r4: "r4 = onewire_reset io (delay_ms io 20 (snd (snd s1)))"
    and r5: "r5 = onewire_reset io (onewire_write io 0x08 (onewire_write io 0x00
              (onewire_write io 0x4E (onewire_write io 0xCC (snd r4)))))"
    and r6: "r6 = onewire_reset io (delay_ms io 20 (onewire_write io kConvertVCommand
              (onewire_write io 0xCC (snd r5))))"
    and q1: "q1 = onewire_reset io (snd r6)"
    and q2: "q2 = onewire_reset io (onewire_write io 0 (onewire_write io kRecallPage
              (onewire_write io 0xCC (snd q1))))"
    and fr: "frame = fst (onewire_read_bytes io 9 (onewire_write io 0
              (onewire_write io kReadScatchPad (onewire_write io 0xCC (snd q2)))))"
  shows "length frame = 9 \<and> crc_checks frame 8 \<and>
         out' = sprintf_TH fl (temperature fl frame)
           (sensor_rh fl (scratch_voltage (fst (snd s1))) (scratch_voltage frame)
              (temperature fl frame))"
proof -
  define s2 where "s2 = ds2438_read_slave io 0 (fst (snd s1)) (snd r6)"
  have a: "fst s2 = 0 \<and>
      out' = sprintf_TH fl (temperature fl (fst (snd s2)))
        (sensor_rh fl (scratch_voltage (fst (snd s1))) (scratch_voltage (fst (snd s2)))
           (temperature fl (fst (snd s2))))"
    using m read_slave_values [of io 0 "replicate 9 0"] read_slave_values [of io 0]
    unfolding s2_def r6 r5 r4 s1 r3 r2 r1
    by (auto simp add: Let_def ds2438_measure_def measure_vad_def measure_vdd_def split_beta
        status_distinct split: if_splits)
  have l: "length (fst (snd s1)) = 9"
    unfolding s1 by (rule read_slave_length) simp
  from a have z: "fst (ds2438_read_slave io 0 (fst (snd s1)) (snd r6)) = 0"
    by (simp add: s2_def)
  from read_slave_frame [OF l z] have f: "fst (snd s2) = frame" "crc_checks (fst (snd s2)) 8"
    unfolding s2_def fr q2 q1 by simp_all
  from a f show ?thesis
    by (simp add: fr onewire_read_bytes_length)
qed

text \<open>
  C10, as amended. When \<^verbatim>\<open>ds2438_measure\<close> returns true, the temperature it has
  printed is computed from the nine bytes \<open>frame\<close> that its second scratchpad read
  took from the bus: byte 2 converted to \<^verbatim>\<open>float\<close> as an unsigned value (0 to 255,
  \<^verbatim>\<open>const uint8_t temp_integer\<close>), plus byte 1 shifted right by 3 (0 to 31) times
  32, converted to \<^verbatim>\<open>float\<close> and divided by 1000.
\<close>

theorem temperature_unsigned:
  "let r1 = onewire_reset io b;
       r2 = onewire_reset io (delay_ms io 20 (onewire_write io 0x00 (onewire_write io 0x00
              (onewire_write io 0x4E (onewire_write io 0xCC (snd r1))))));
       r3 = onewire_reset io (delay_ms io 20 (onewire_write io kConvertTCommand
              (onewire_write io 0xCC (snd r2))));
       s1 = ds2438_read_slave io 0 (replicate 9 0) (delay_ms io 20
              (onewire_write io kConvertVCommand (onewire_write io 0xCC (snd r3))));
       r4 = onewire_reset io (delay_ms io 20 (snd (snd s1)));
       r5 = onewire_reset io (onewire_write io 0x08 (onewire_write io 0x00
              (onewire_write io 0x4E (onewire_write io 0xCC (snd r4)))));
       r6 = onewire_reset io (delay_ms io 20 (onewire_write io kConvertVCommand
              (onewire_write io 0xCC (snd r5))));
       q1 = onewire_reset io (snd r6);
       q2 = onewire_reset io (onewire_write io 0 (onewire_write io kRecallPage
              (onewire_write io 0xCC (snd q1))));
       frame = fst (onewire_read_bytes io 9 (onewire_write io 0
              (onewire_write io kReadScatchPad (onewire_write io 0xCC (snd q2)))));
       msb = frame ! 2;
       lsb = frame ! 1;
       t = flt_add fl (flt_of_int fl (uint msb))
             (flt_div fl (flt_of_int fl (uint (drop_bit 3 lsb) * 32)) (flt_lit fl 1000));
       rh = sensor_rh fl (scratch_voltage (fst (snd s1))) (scratch_voltage frame) t
   in ds2438_measure io fl b output = Some (True, out', b') \<longrightarrow>
        length frame = 9 \<and> crc_checks frame 8 \<and>
        0 \<le> uint msb \<and> uint msb < 256 \<and> uint (drop_bit 3 lsb) < 32 \<and>
        out' = ''TH;'' @ flt_fmt fl t @ '';'' @ flt_fmt fl rh @ [CHR 0x0D, CHR 0x0A]"
proof -
  have "length frame = 9 \<and> crc_checks frame 8 \<and>
        0 \<le> uint (frame ! 2) \<and> uint (frame ! 2) < 256 \<and> uint (drop_bit 3 (frame ! 1)) < 32 \<and>
        out' = ''TH;'' @ flt_fmt fl (temperature fl frame) @ '';'' @
          flt_fmt fl (sensor_rh fl (scratch_voltage (fst (snd s1))) (scratch_voltage frame)
            (temperature fl frame)) @ [CHR 0x0D, CHR 0x0A]"
    if "ds2438_measure io fl b output = Some (True, out', b')"
      and "r1 = onewire_reset io b"
      and "r2 = onewire_reset io (delay_ms io 20 (onewire_write io 0x00 (onewire_write io 0x00
              (onewire_write io 0x4E (onewire_write io 0xCC (snd r1))))))"
      and "r3 = onewire_reset io (delay_ms io 20 (onewire_write io kConvertTCommand
              (onewire_write io 0xCC (snd r2))))"
      and "s1 = ds2438_read_slave io 0 (replicate 9 0) (delay_ms io 20
              (onewire_write io kConvertVCommand (onewire_write io 0xCC (snd r3))))"
      and "r4 = onewire_reset io (delay_ms io 20 (snd (snd s1)))"
      and "r5 = onewire_reset io (onewire_write io 0x08 (onewire_write io 0x00
              (onewire_write io 0x4E (onewire_write io 0xCC (snd r4)))))"
      and "r6 = onewire_reset io (delay_ms io 20 (onewire_write io kConvertVCommand
              (onewire_write io 0xCC (snd r5))))"
      and "q1 = onewire_reset io (snd r6)"
      and "q2 = onewire_reset io (onewire_write io 0 (onewire_write io kRecallPage
              (onewire_write io 0xCC (snd q1))))"
      and "frame = fst (onewire_read_bytes io 9 (onewire_write io 0
              (onewire_write io kReadScatchPad (onewire_write io 0xCC (snd q2)))))"
    for r1 r2 r3 s1 r4 r5 r6 q1 q2 frame
    using ds2438_measure_true [OF that] temperature_bytes(2-4) [of frame]
    by (simp add: sprintf_TH_def)
  then show ?thesis
    by (simp add: Let_def temperature_bytes(1))
qed

theorem temperature_unsigned_witness:
  "ds2438_measure script_io exact_flt
     (0 # 0 # 0 # 0 # 0 # levels_vad @ 0 # 0 # 0 # 0 # 0 # levels_vdd) ''old'' =
     Some (True, ''TH;25.192;6.450'' @ [CHR 0x0D, CHR 0x0A], []) \<and>
   fst (onewire_read_bytes script_io 9 levels_vdd) = frame_vdd \<and>
   length frame_vdd = 9 \<and> crc_checks frame_vdd 8 \<and>
   uint (frame_vdd ! 2) = 25 \<and> uint (drop_bit 3 (frame_vdd ! 1)) * 32 = 192 \<and>
   ''TH;25.192;6.450'' @ [CHR 0x0D, CHR 0x0A] =
     ''TH;'' @
     flt_fmt exact_flt (flt_add exact_flt (flt_of_int exact_flt (uint (frame_vdd ! 2)))
       (flt_div exact_flt (flt_of_int exact_flt (uint (drop_bit 3 (frame_vdd ! 1)) * 32))
          (flt_lit exact_flt 1000))) @
     '';'' @
     flt_fmt exact_flt (sensor_rh exact_flt (scratch_voltage frame_vad) (scratch_voltage frame_vdd)
       (flt_add exact_flt (flt_of_int exact_flt (uint (frame_vdd ! 2)))
          (flt_div exact_flt (flt_of_int exact_flt (uint (drop_bit 3 (frame_vdd ! 1)) * 32))
             (flt_lit exact_flt 1000)))) @
     [CHR 0x0D, CHR 0x0A] \<and>
   flt_fmt exact_flt (flt_add exact_flt (flt_of_int exact_flt 25)
       (flt_div exact_flt (flt_of_int exact_flt 192) (flt_lit exact_flt 1000))) = ''25.192''"
proof -
  note t = temperature_unsigned [where io = script_io and fl = exact_flt
      and b = "0 # 0 # 0 # 0 # 0 # levels_vad @ 0 # 0 # 0 # 0 # 0 # levels_vdd"
      and out' = "''TH;25.192;6.450'' @ [CHR 0x0D, CHR 0x0A]" and b' = "[]",
      unfolded Let_def, THEN mp, OF script_measure(1)]
  have f: "fst (onewire_read_bytes script_io 9 levels_vdd) = frame_vdd"
    using script_frames(2) [of "[]"] by simp
  from t have "length frame_vdd = 9 \<and> crc_checks frame_vdd 8 \<and>
   ''TH;25.192;6.450'' @ [CHR 0x0D, CHR 0x0A] =
     ''TH;'' @
     flt_fmt exact_flt (flt_add exact_flt (flt_of_int exact_flt (uint (frame_vdd ! 2)))
       (flt_div exact_flt (flt_of_int exact_flt (uint (drop_bit 3 (frame_vdd ! 1)) * 32))
          (flt_lit exact_flt 1000))) @
     '';'' @
     flt_fmt exact_flt (sensor_rh exact_flt (scratch_voltage frame_vad) (scratch_voltage frame_vdd)
       (flt_add exact_flt (flt_of_int exact_flt (uint (frame_vdd ! 2)))
          (flt_div exact_flt (flt_of_int exact_flt (uint (drop_bit 3 (frame_vdd ! 1)) * 32))
             (flt_lit exact_flt 1000)))) @
     [CHR 0x0D, CHR 0x0A]"
    unfolding script_reset script_write script_io_simps fst_conv snd_conv
      script_read_slave(1) [OF length_replicate] f
    by simp
  moreover have "uint (frame_vdd ! 2) = 25" "uint (drop_bit 3 (frame_vdd ! 1)) * 32 = 192"
    by (simp_all add: frame_vdd_def)
  moreover have "flt_fmt exact_flt (flt_add exact_flt (flt_of_int exact_flt 25)
       (flt_div exact_flt (flt_of_int exact_flt 192) (flt_lit exact_flt 1000))) = ''25.192''"
    by (simp add: exact_flt_def exact_op_def dec3_def digits.simps digit_char_def Let_def)
  ultimately show ?thesis
    using script_measure(1) [of "''old''"] f by blast
qed


text \<open>
  C10 as it was stated fails: when the second scratchpad has temperature MSB \<open>0xFF\<close>
  (\<open>-1\<close> as a signed byte) the measurement prints the temperature 255.192, the
  unsigned reading, where the signed reading gives -0.808.
\<close>

theorem temperature_signed_counterexample:
  "ds2438_measure script_io exact_flt
     (0 # 0 # 0 # 0 # 0 # levels_vad @ 0 # 0 # 0 # 0 # 0 # levels_cold) [] =
     Some (True, ''TH;255.192;12.816'' @ [CHR 0x0D, CHR 0x0A], []) \<and>
   length (''TH;255.192;12.816'' @ [CHR 0x0D, CHR 0x0A]) = 19 \<and>
   fst (onewire_read_bytes script_io 9 levels_cold) = frame_cold \<and>
   frame_cold ! 2 = 0xFF \<and> sint (frame_cold ! 2) = - 1 \<and> uint (frame_cold ! 2) = 255 \<and>
   uint (drop_bit 3 (frame_cold ! 1)) * 32 = 192 \<and>
   flt_fmt exact_flt (flt_add exact_flt (flt_of_int exact_flt (uint (frame_cold ! 2)))
       (flt_div exact_flt (flt_of_int exact_flt (uint (drop_bit 3 (frame_cold ! 1)) * 32))
          (flt_lit exact_flt 1000))) = ''255.192'' \<and>
   flt_fmt exact_flt (flt_add exact_flt (flt_of_int exact_flt (sint (frame_cold ! 2)))
       (flt_div exact_flt (flt_of_int exact_flt (uint (drop_bit 3 (frame_cold ! 1)) * 32))
          (flt_lit exact_flt 1000))) = ''-0.808''"
proof -
  have "fst (onewire_read_bytes script_io 9 levels_cold) = frame_cold"
    using script_frame_cold(1) [of "[]"] by simp
  moreover have "frame_cold ! 2 = 0xFF" "sint (frame_cold ! 2) = - 1" "uint (frame_cold ! 2) = 255"
    "uint (drop_bit 3 (frame_cold ! 1)) * 32 = 192"
    by (simp_all add: frame_cold_def)
  moreover have "flt_fmt exact_flt (flt_add exact_flt (flt_of_int exact_flt 255)
       (flt_div exact_flt (flt_of_int exact_flt 192) (flt_lit exact_flt 1000))) = ''255.192''"
    "flt_fmt exact_flt (flt_add exact_flt (flt_of_int exact_flt (- 1))
       (flt_div exact_flt (flt_of_int exact_flt 192) (flt_lit exact_flt 1000))) = ''-0.808''"
    by (simp_all add: exact_flt_def exact_op_def dec3_def digits.simps digit_char_def Let_def)
  ultimately show ?thesis
    by (simp add: script_measure(2))
qed

end
